theory Spec2Isabelle
  imports Complex_Main
begin

section \<open>Python values\<close>

text \<open>
  The two scripts \<^verbatim>\<open>gps_pc.py\<close> and \<^verbatim>\<open>gps_android.py\<close> only handle
  the values that JSON knows: \<^verbatim>\<open>None\<close>, booleans, integers, floats, strings, lists and
  dictionaries with string keys. A float is a finite double (the real number it denotes),
  an infinity or a NaN. A dictionary is an association list in insertion order, read with
  \<^const>\<open>map_of\<close>. A string is a list of code points below 256.
\<close>

datatype pyfloat = Finite real | PosInf | NegInf | NaN

datatype pyval =
    PNone
  | PBool bool
  | PInt int
  | PFloat pyfloat
  | PStr string
  | PList "pyval list"
  | PDict "(string \<times> pyval) list"

type_synonym pydict = "(string \<times> pyval) list"

text \<open>
  Exceptions. Only subclasses of \<^verbatim>\<open>Exception\<close> are values here. \<open>ValueError\<close> is an
  instance of \<^verbatim>\<open>ValueError\<close> or of a subclass of it (\<^verbatim>\<open>UnicodeDecodeError\<close>, say);
  \<^verbatim>\<open>Raised n\<close> is an exception of a class \<^verbatim>\<open>n\<close> that is none of the others, raised
  inside a library call whose outcome the environment decides (the location command, the
  JSON parser, the socket, \<^verbatim>\<open>input\<close>).
\<close>

datatype exn = KeyError string | TypeError | AttributeError | ValueError | Raised string

text \<open>\<^verbatim>\<open>d[k]\<close>: only a dictionary can be subscripted with a string.\<close>

fun getitem :: "pyval \<Rightarrow> string \<Rightarrow> exn + pyval" where
  "getitem (PDict d) k = (case map_of d k of None \<Rightarrow> Inl (KeyError k) | Some v \<Rightarrow> Inr v)"
| "getitem _ k = Inl TypeError"

text \<open>\<^verbatim>\<open>d.get(k, default)\<close>: only a dictionary has the method.\<close>

fun get_default :: "pyval \<Rightarrow> string \<Rightarrow> pyval \<Rightarrow> exn + pyval" where
  "get_default (PDict d) k dflt = (case map_of d k of None \<Rightarrow> Inr dflt | Some v \<Rightarrow> Inr v)"
| "get_default _ k dflt = Inl AttributeError"

section \<open>Float arithmetic of the simulated source\<close>

text \<open>
  Rounding to the nearest integer, ties to the even one: the rounding of a double
  operation's exact result and of \<^verbatim>\<open>round(x, n)\<close>.
\<close>

definition round_half_even :: "real \<Rightarrow> int" where
  "round_half_even x =
     (let f = \<lfloor>x\<rfloor>; d = x - of_int f
      in if d < 1 / 2 then f
         else if 1 / 2 < d then f + 1
         else if even f then f else f + 1)"

text \<open>
  \<open>fl x\<close> is the double nearest to the real \<open>x\<close> (53 significant bits, ties to even).
  The exponent range is left unbounded: \<open>fl\<close> is binary64 rounding for \<open>0\<close> and for every
  \<open>x\<close> whose magnitude lies in the range of the normal doubles, which covers every value
  the simulated source computes.
\<close>

definition binade :: "real \<Rightarrow> int" where
  "binade x = \<lfloor>log 2 \<bar>x\<bar>\<rfloor>"

definition fl :: "real \<Rightarrow> real" where
  "fl x =
     (if x = 0 then 0
      else of_int (round_half_even (x / 2 powi (binade x - 52))) * 2 powi (binade x - 52))"

text \<open>
  \<^verbatim>\<open>random.uniform(a, b)\<close> is \<^verbatim>\<open>a + (b - a) * self.random()\<close> in double arithmetic;
  \<open>r\<close> is the value of \<^verbatim>\<open>random()\<close>, a double in \<open>[0, 1)\<close>.
\<close>

definition uniform :: "real \<Rightarrow> real \<Rightarrow> real \<Rightarrow> real" where
  "uniform a b r = fl (a + fl (fl (b - a) * r))"

text \<open>
  \<^verbatim>\<open>round(x, n)\<close> of a finite double: the decimal with \<open>n\<close> digits after the point
  nearest to the exact value of \<open>x\<close> (ties to even), converted back to the nearest double.
\<close>

definition py_round :: "real \<Rightarrow> nat \<Rightarrow> real" where
  "py_round x n = fl (of_int (round_half_even (x * 10 ^ n)) / 10 ^ n)"

text \<open>\<^verbatim>\<open>int(x)\<close> of a finite double truncates towards zero.\<close>

definition py_int :: "real \<Rightarrow> int" where
  "py_int x = (if 0 \<le> x then \<lfloor>x\<rfloor> else \<lceil>x\<rceil>)"

text \<open>\<^verbatim>\<open>int(time.time() * 1000)\<close>, for the clock reading \<open>t\<close> (a double, in seconds).\<close>

definition timestamp_ms :: "real \<Rightarrow> int" where
  "timestamp_ms t = py_int (fl (t * 1000))"

section \<open>The target registry\<close>

text \<open>
  The global \<^verbatim>\<open>target_location\<close> is only ever bound to a dictionary literal with the four
  keys \<^verbatim>\<open>latitude\<close>, \<^verbatim>\<open>longitude\<close>, \<^verbatim>\<open>altitude\<close>, \<^verbatim>\<open>isSet\<close>: a record of four
  values. The process state also holds what has been printed and every socket.
\<close>

record target =
  latitude :: pyval
  longitude :: pyval
  altitude :: pyval
  isSet :: pyval

text \<open>The lines the scripts print, one constructor for each \<^verbatim>\<open>print\<close> of the source.\<close>

datatype line =
    Prompt_command
  | Prompt_coordinates
  | Target_set pyval pyval pyval
  | Target_cleared
  | Invalid_format
  | Invalid_coordinates
  | Help_text
  | Unknown_command
  | Console_error exn
  | Client_connected
  | Sending string
  | Connection_closed exn
  | Error_getting_gps exn

record socket =
  is_open :: bool
  sent :: "string list"

record world =
  target_location :: target
  stdout :: "line list"
  sockets :: "nat \<Rightarrow> socket"

definition print :: "line \<Rightarrow> world \<Rightarrow> world" where
  "print l w = w\<lparr>stdout := stdout w @ [l]\<rparr>"

text \<open>The module-level initial binding (lines 24-29 of gps_pc.py, 15-20 of gps_android.py).\<close>

definition initial_target :: target where
  "initial_target =
     \<lparr>latitude = PNone, longitude = PNone, altitude = PInt 0, isSet = PBool False\<rparr>"

text \<open>
  \<^verbatim>\<open>set_target_location(lat, lon, alt=0)\<close>, the same text in both scripts. \<open>lat\<close> and
  \<open>lon\<close> are floats, as the docstring and the only call site have them; \<open>alt\<close> is
  \<open>None\<close> when the argument is omitted, and then the default \<^verbatim>\<open>0\<close> (an integer) is stored.
\<close>

definition set_target_location :: "pyfloat \<Rightarrow> pyfloat \<Rightarrow> pyval option \<Rightarrow> world \<Rightarrow> world" where
  "set_target_location lat lon alt_arg w =
     (let alt = (case alt_arg of None \<Rightarrow> PInt 0 | Some a \<Rightarrow> a)
      in print (Target_set (PFloat lat) (PFloat lon) alt)
           (w\<lparr>target_location :=
                \<lparr>latitude = PFloat lat, longitude = PFloat lon, altitude = alt,
                 isSet = PBool True\<rparr>\<rparr>))"

text \<open>\<^verbatim>\<open>clear_target_location()\<close>, the same text in both scripts.\<close>

definition clear_target_location :: "world \<Rightarrow> world" where
  "clear_target_location w =
     print Target_cleared
       (w\<lparr>target_location :=
            \<lparr>latitude = PNone, longitude = PNone, altitude = PInt 0, isSet = PBool False\<rparr>\<rparr>)"

section \<open>The location sources\<close>

text \<open>
  \<^verbatim>\<open>generate_random_gps()\<close> of gps_pc.py. \<open>r1\<close>, \<open>r2\<close>, \<open>r3\<close> are the three values of
  \<^verbatim>\<open>random()\<close> behind the three calls of \<^verbatim>\<open>random.uniform\<close>, \<open>t\<close> is the clock. The
  literals \<^verbatim>\<open>63.3\<close>, \<^verbatim>\<open>10.3\<close>, ... denote the nearest doubles.
\<close>

definition generate_random_gps :: "target \<Rightarrow> real \<Rightarrow> real \<Rightarrow> real \<Rightarrow> real \<Rightarrow> pydict" where
  "generate_random_gps tg r1 r2 r3 t =
     [(''latitude'', PFloat (Finite (py_round (uniform (fl 63.3) (fl 63.5) r1) 4))),
      (''longitude'', PFloat (Finite (py_round (uniform (fl 10.3) (fl 10.7) r2) 4))),
      (''altitude'', PFloat (Finite (py_round (uniform 0 100 r3) 1))),
      (''timestamp'', PInt (timestamp_ms t)),
      (''valid'', PBool True),
      (''targetLatitude'', latitude tg),
      (''targetLongitude'', longitude tg),
      (''targetAltitude'', altitude tg),
      (''hasTarget'', isSet tg)]"

text \<open>
  \<^verbatim>\<open>get_android_gps()\<close> of gps_android.py. \<open>cmd\<close> is the outcome of
  \<^verbatim>\<open>subprocess.check_output(['termux-location']).decode('utf-8')\<close>: the exception it
  raises or the text it returns. \<open>loads\<close> is \<^verbatim>\<open>json.loads\<close>. The body of the
  \<^verbatim>\<open>try\<close> is \<open>android_reading\<close>; the entries of the dictionary display are evaluated in
  order, so the clock is read only after the three sensor fields.
\<close>

definition android_reading ::
  "(string \<Rightarrow> exn + pyval) \<Rightarrow> target \<Rightarrow> exn + string \<Rightarrow> real \<Rightarrow> exn + pydict" where
  "android_reading loads tg cmd t =
     (case cmd of
        Inl e \<Rightarrow> Inl e
      | Inr output \<Rightarrow>
          (case loads output of
             Inl e \<Rightarrow> Inl e
           | Inr location_data \<Rightarrow>
               (case getitem location_data ''latitude'' of
                  Inl e \<Rightarrow> Inl e
                | Inr la \<Rightarrow>
                    (case getitem location_data ''longitude'' of
                       Inl e \<Rightarrow> Inl e
                     | Inr lo \<Rightarrow>
                         (case get_default location_data ''altitude'' (PInt 0) of
                            Inl e \<Rightarrow> Inl e
                          | Inr al \<Rightarrow>
                              Inr [(''latitude'', la),
                                   (''longitude'', lo),
                                   (''altitude'', al),
                                   (''timestamp'', PInt (timestamp_ms t)),
                                   (''valid'', PBool True),
                                   (''targetLatitude'', latitude tg),
                                   (''targetLongitude'', longitude tg),
                                   (''targetAltitude'', altitude tg),
                                   (''hasTarget'', isSet tg)])))))"

definition fallback_reading :: "target \<Rightarrow> real \<Rightarrow> pydict" where
  "fallback_reading tg t =
     [(''latitude'', PFloat (Finite 0)),
      (''longitude'', PFloat (Finite 0)),
      (''altitude'', PFloat (Finite 0)),
      (''timestamp'', PInt (timestamp_ms t)),
      (''valid'', PBool False),
      (''targetLatitude'', latitude tg),
      (''targetLongitude'', longitude tg),
      (''targetAltitude'', altitude tg),
      (''hasTarget'', isSet tg)]"

definition get_android_gps ::
  "(string \<Rightarrow> exn + pyval) \<Rightarrow> exn + string \<Rightarrow> real \<Rightarrow> world \<Rightarrow> pydict \<times> world" where
  "get_android_gps loads cmd t w =
     (case android_reading loads (target_location w) cmd t of
        Inr gps_data \<Rightarrow> (gps_data, w)
      | Inl e \<Rightarrow>
          (let w' = print (Error_getting_gps e) w
           in (fallback_reading (target_location w') t, w')))"

section \<open>The operator console\<close>

text \<open>
  The string methods the console uses, on code points below 256: \<^verbatim>\<open>str.isspace\<close> holds
  of U+0009 to U+000D, U+001C to U+0020, U+0085 and U+00A0; \<^verbatim>\<open>str.lower\<close> moves
  \<^verbatim>\<open>A\<close> to \<^verbatim>\<open>Z\<close> and U+00C0 to U+00DE (but the sign U+00D7) up by 32.
\<close>

definition isspace :: "char \<Rightarrow> bool" where
  "isspace c =
     (let n = (of_char c :: nat)
      in (9 \<le> n \<and> n \<le> 13) \<or> (28 \<le> n \<and> n \<le> 32) \<or> n = 133 \<or> n = 160)"

definition lower_char :: "char \<Rightarrow> char" where
  "lower_char c =
     (let n = (of_char c :: nat)
      in if (65 \<le> n \<and> n \<le> 90) \<or> (192 \<le> n \<and> n \<le> 222 \<and> n \<noteq> 215)
         then char_of (n + 32) else c)"

definition lower :: "string \<Rightarrow> string" where
  "lower s = map lower_char s"

definition strip :: "string \<Rightarrow> string" where
  "strip s = rev (dropWhile isspace (rev (dropWhile isspace s)))"

text \<open>
  \<^verbatim>\<open>s.split()\<close>: the maximal runs of characters that are not whitespace, in order.
  \<open>cur\<close> is the token being read.
\<close>

fun split_from :: "string \<Rightarrow> string \<Rightarrow> string list" where
  "split_from cur [] = (if cur = [] then [] else [cur])"
| "split_from cur (c # cs) =
     (if isspace c then (if cur = [] then split_from [] cs else cur # split_from [] cs)
      else split_from (cur @ [c]) cs)"

definition split :: "string \<Rightarrow> string list" where
  "split s = split_from [] s"

text \<open>
  The inner \<^verbatim>\<open>try\<close> of \<^verbatim>\<open>handle_user_input\<close> once the coordinate line has been read
  (lines 173-184 of gps_pc.py, 191-202 of gps_android.py). \<open>parse_float\<close> is
  \<^verbatim>\<open>float\<close> on a string: \<open>None\<close> when it raises \<^verbatim>\<open>ValueError\<close>.
\<close>

definition coordinates_entry :: "(string \<Rightarrow> pyfloat option) \<Rightarrow> string \<Rightarrow> world \<Rightarrow> world" where
  "coordinates_entry parse_float line w =
     (let coords = strip line; parts = split coords
      in if 2 \<le> length parts then
           (case parse_float (parts ! 0) of
              None \<Rightarrow> print Invalid_coordinates w
            | Some lat \<Rightarrow>
                (case parse_float (parts ! 1) of
                   None \<Rightarrow> print Invalid_coordinates w
                 | Some lon \<Rightarrow>
                     (if 2 < length parts then
                        (case parse_float (parts ! 2) of
                           None \<Rightarrow> print Invalid_coordinates w
                         | Some alt \<Rightarrow> set_target_location lat lon (Some (PFloat alt)) w)
                      else set_target_location lat lon (Some (PInt 0)) w)))
         else print Invalid_format w)"

text \<open>
  \<^verbatim>\<open>handle_user_input()\<close>, the same text in both scripts. The list holds the outcome of
  each \<^verbatim>\<open>input()\<close> in turn: the line the operator types, or the exception raised (at
  the end of the input, say). The \<^verbatim>\<open>input()\<close> of the command is guarded by the outer
  handler alone; the \<^verbatim>\<open>input()\<close> of the coordinates stands inside the inner
  \<^verbatim>\<open>try\<close>, whose handler takes a \<^verbatim>\<open>ValueError\<close> and leaves every other exception to
  the outer one. When the list is used up the loop is blocked in \<^verbatim>\<open>input()\<close> and the
  state reached so far is the result.
\<close>

fun handle_user_input ::
  "(string \<Rightarrow> pyfloat option) \<Rightarrow> world \<Rightarrow> (exn + string) list \<Rightarrow> world" where
  "handle_user_input parse_float w [] = print Prompt_command w"
| "handle_user_input parse_float w (Inl e # ls) =
     handle_user_input parse_float (print (Console_error e) (print Prompt_command w)) ls"
| "handle_user_input parse_float w (Inr l # ls) =
     (let w1 = print Prompt_command w; response = lower l
      in if response \<in> set [''y'', ''yes''] then
           (case ls of
              [] \<Rightarrow> print Prompt_coordinates w1
            | Inl e # rest \<Rightarrow>
                handle_user_input parse_float
                  (print (if e = ValueError then Invalid_coordinates else Console_error e)
                     (print Prompt_coordinates w1)) rest
            | Inr line # rest \<Rightarrow>
                handle_user_input parse_float
                  (coordinates_entry parse_float line (print Prompt_coordinates w1)) rest)
         else if response = ''clear'' then
           handle_user_input parse_float (print Target_cleared (clear_target_location w1)) ls
         else if response = ''help'' then
           handle_user_input parse_float (print Help_text w1) ls
         else handle_user_input parse_float (print Unknown_command w1) ls)"

section \<open>Client sessions\<close>

definition DEBUG_MODE :: bool where
  "DEBUG_MODE = False"

definition socket_send :: "nat \<Rightarrow> string \<Rightarrow> world \<Rightarrow> world" where
  "socket_send c bytes w =
     w\<lparr>sockets := (sockets w)(c := (sockets w c)\<lparr>sent := sent (sockets w c) @ [bytes]\<rparr>)\<rparr>"

definition socket_close :: "nat \<Rightarrow> world \<Rightarrow> world" where
  "socket_close c w = w\<lparr>sockets := (sockets w)(c := (sockets w c)\<lparr>is_open := False\<rparr>)\<rparr>"

text \<open>
  The \<^verbatim>\<open>while True\<close> of \<^verbatim>\<open>handle_client\<close>. The two scripts differ only in the poll
  (\<open>poll\<close>) and in the length of the sleep. \<open>dumps\<close> is \<^verbatim>\<open>json.dumps\<close>, whose text
  is ASCII, so that \<^verbatim>\<open>encode('utf-8')\<close> leaves it as it is. The list holds,
  for each round the scheduler lets the loop run, what the poll reads from outside (\<open>e\<close>)
  and the outcome of \<^verbatim>\<open>client_socket.send\<close>: the exception raised or the number of bytes
  the socket took. The result is the state and the exception that left the loop, or
  \<open>None\<close> while the loop is still running.
\<close>

fun send_loop ::
  "(pydict \<Rightarrow> exn + string) \<Rightarrow> ('e \<Rightarrow> world \<Rightarrow> pydict \<times> world) \<Rightarrow> nat \<Rightarrow>
   ('e \<times> (exn + nat)) list \<Rightarrow> world \<Rightarrow> world \<times> exn option" where
  "send_loop dumps poll c [] w = (w, None)"
| "send_loop dumps poll c ((e, send_result) # rest) w =
     (case poll e w of
        (gps_data, w1) \<Rightarrow>
          (case dumps gps_data of
             Inl ex \<Rightarrow> (w1, Some ex)
           | Inr json_data \<Rightarrow>
               (let w2 = (if DEBUG_MODE then print (Sending json_data) w1 else w1)
                in case send_result of
                     Inl ex \<Rightarrow> (w2, Some ex)
                   | Inr n \<Rightarrow>
                       send_loop dumps poll c rest (socket_send c (take n json_data) w2))))"

datatype session = Sending_data | Ended

text \<open>\<^verbatim>\<open>handle_client(client_socket)\<close>: the \<^verbatim>\<open>try\<close>, its handler and its \<^verbatim>\<open>finally\<close>.\<close>

definition handle_client ::
  "(pydict \<Rightarrow> exn + string) \<Rightarrow> ('e \<Rightarrow> world \<Rightarrow> pydict \<times> world) \<Rightarrow> nat \<Rightarrow>
   ('e \<times> (exn + nat)) list \<Rightarrow> world \<Rightarrow> world \<times> session" where
  "handle_client dumps poll c rounds w =
     (case send_loop dumps poll c rounds (print Client_connected w) of
        (w1, None) \<Rightarrow> (w1, Sending_data)
      | (w1, Some ex) \<Rightarrow> (socket_close c (print (Connection_closed ex) w1), Ended))"

text \<open>The poll of each script, as \<^verbatim>\<open>handle_client\<close> calls it.\<close>

definition pc_poll :: "real \<times> real \<times> real \<times> real \<Rightarrow> world \<Rightarrow> pydict \<times> world" where
  "pc_poll e w =
     (case e of (r1, r2, r3, t) \<Rightarrow> (generate_random_gps (target_location w) r1 r2 r3 t, w))"

definition android_poll ::
  "(string \<Rightarrow> exn + pyval) \<Rightarrow> (exn + string) \<times> real \<Rightarrow> world \<Rightarrow> pydict \<times> world" where
  "android_poll loads e w = (case e of (cmd, t) \<Rightarrow> get_android_gps loads cmd t w)"

section \<open>Sequences of registry calls\<close>

datatype call = Set_target pyfloat pyfloat "pyval option" | Clear_target

fun do_call :: "call \<Rightarrow> world \<Rightarrow> world" where
  "do_call (Set_target lat lon alt_arg) w = set_target_location lat lon alt_arg w"
| "do_call Clear_target w = clear_target_location w"

fun do_calls :: "call list \<Rightarrow> world \<Rightarrow> world" where
  "do_calls [] w = w"
| "do_calls (c # cs) w = do_calls cs (do_call c w)"

section \<open>A poll interleaved with the console\<close>

text \<open>
  A session thread and the console thread share the global \<^verbatim>\<open>target_location\<close> and
  nothing guards it. The dictionary display of \<^verbatim>\<open>generate_random_gps\<close> (lines 47-50)
  and of \<^verbatim>\<open>get_android_gps\<close> (lines 45-48 and 59-62) reads the global four times, once
  for each target entry, in the order of \<open>target_reads\<close>; a call of the console rebinds
  it in one assignment. A schedule says which thread runs next: \<open>Reader\<close> lets the poll
  do its next read, \<open>Console c\<close> lets the console do the call \<open>c\<close>. \<open>interleave\<close>
  returns the state and the values the poll has read.
\<close>

datatype thread_step = Console call | Reader

definition target_reads :: "(target \<Rightarrow> pyval) list" where
  "target_reads = [latitude, longitude, altitude, isSet]"

definition fields :: "target \<Rightarrow> pyval list" where
  "fields tg = map (\<lambda>f. f tg) target_reads"

fun step :: "world \<times> pyval list \<Rightarrow> thread_step \<Rightarrow> world \<times> pyval list" where
  "step (w, seen) (Console c) = (do_call c w, seen)"
| "step (w, seen) Reader =
     (if length seen < length target_reads
      then (w, seen @ [(target_reads ! length seen) (target_location w)])
      else (w, seen))"

definition interleave :: "thread_step list \<Rightarrow> world \<Rightarrow> world \<times> pyval list" where
  "interleave sched w = foldl step (w, []) sched"

text \<open>The waypoints the global is bound to in the course of a schedule, each written whole.\<close>

fun written :: "world \<Rightarrow> thread_step list \<Rightarrow> target list" where
  "written w [] = [target_location w]"
| "written w (Console c # sched) = target_location w # written (do_call c w) sched"
| "written w (Reader # sched) = written w sched"

text \<open>The state of either script when it starts: nothing printed, no socket open.\<close>

definition initial_world :: world where
  "initial_world =
     \<lparr>target_location = initial_target, stdout = [],
      sockets = (\<lambda>_. \<lparr>is_open = False, sent = []\<rparr>)\<rparr>"

text \<open>Reading the registry as a client sees it: the four target entries of a packet.\<close>

definition target_keys :: "string list" where
  "target_keys = [''targetLatitude'', ''targetLongitude'', ''targetAltitude'', ''hasTarget'']"

definition target_fields :: "pydict \<Rightarrow> pyval option list" where
  "target_fields packet = map (map_of packet) target_keys"

text \<open>
  \<^verbatim>\<open>float\<close> on a string of ASCII digits: the double nearest to the number it spells, or
  infinity from \<open>2 ^ 1024 - 2 ^ 970\<close> on. On every other string the result is \<open>None\<close>, which
  is \<^verbatim>\<open>float\<close>'s answer only where the string is not a number at all; the examples below
  apply it to digit strings and to words.
\<close>

definition float_of_digits :: "string \<Rightarrow> pyfloat option" where
  "float_of_digits s =
     (if s \<noteq> [] \<and> list_all (\<lambda>c. 48 \<le> (of_char c :: nat) \<and> (of_char c :: nat) \<le> 57) s then
        (let n = foldl (\<lambda>n c. 10 * n + (of_char c - 48)) (0 :: nat) s
         in if real n < 2 ^ 1024 - 2 ^ 970 then Some (Finite (fl (real n))) else Some PosInf)
      else None)"

text \<open>
  \<^verbatim>\<open>float\<close> on the words \<^verbatim>\<open>nan\<close> and \<^verbatim>\<open>inf\<close>, which it accepts, and on strings of
  ASCII digits.
\<close>

definition float_of_word :: "string \<Rightarrow> pyfloat option" where
  "float_of_word s =
     (if s = ''nan'' then Some NaN
      else if s = ''inf'' then Some PosInf
      else float_of_digits s)"

text \<open>The registry calls whose coordinates are finite doubles.\<close>

fun finite_coordinates :: "call \<Rightarrow> bool" where
  "finite_coordinates (Set_target (Finite x) (Finite y) alt_arg) = True"
| "finite_coordinates (Set_target lat lon alt_arg) = False"
| "finite_coordinates Clear_target = True"

section \<open>Properties of the registry\<close>

lemma target_location_print [simp]: "target_location (print l w) = target_location w"
  by (simp add: print_def)

lemma target_location_set:
  "target_location (set_target_location lat lon alt_arg w) =
     \<lparr>latitude = PFloat lat, longitude = PFloat lon,
      altitude = (case alt_arg of None \<Rightarrow> PInt 0 | Some a \<Rightarrow> a), isSet = PBool True\<rparr>"
  by (simp add: set_target_location_def Let_def)

lemma target_location_clear:
  "target_location (clear_target_location w) = initial_target"
  by (simp add: clear_target_location_def initial_target_def)

lemma target_fields_random:
  "target_fields (generate_random_gps tg r1 r2 r3 t) =
     [Some (latitude tg), Some (longitude tg), Some (altitude tg), Some (isSet tg)]"
  by (simp add: target_fields_def target_keys_def generate_random_gps_def)

lemma target_fields_fallback:
  "target_fields (fallback_reading tg t) =
     [Some (latitude tg), Some (longitude tg), Some (altitude tg), Some (isSet tg)]"
  by (simp add: target_fields_def target_keys_def fallback_reading_def)

lemma android_reading_target_fields:
  "android_reading loads tg cmd t = Inr p \<Longrightarrow>
   target_fields p = [Some (latitude tg), Some (longitude tg), Some (altitude tg), Some (isSet tg)]"
  by (auto simp: android_reading_def target_fields_def target_keys_def split: sum.splits)

lemma target_fields_android:
  "target_fields (fst (get_android_gps loads cmd t w)) =
     [Some (latitude (target_location w)), Some (longitude (target_location w)),
      Some (altitude (target_location w)), Some (isSet (target_location w))]"
  by (auto simp: get_android_gps_def Let_def target_fields_fallback
      dest: android_reading_target_fields split: sum.splits)

text \<open>
  C1. After \<^verbatim>\<open>set_target_location(lat, lon, alt)\<close> the registry holds exactly
  \<open>lat\<close>, \<open>lon\<close>, \<open>alt\<close> and \<^verbatim>\<open>isSet = True\<close>, for every float \<open>lat\<close> and \<open>lon\<close> and
  every \<open>alt\<close>, whatever was stored before: nothing is validated or altered. With \<open>alt\<close>
  omitted the altitude is the integer 0. The next packet of either script carries the
  same four values.
\<close>

theorem set_then_read:
  "target_location (set_target_location lat lon (Some alt) w) =
     \<lparr>latitude = PFloat lat, longitude = PFloat lon, altitude = alt, isSet = PBool True\<rparr>
   \<and> target_location (set_target_location lat lon None w) =
     \<lparr>latitude = PFloat lat, longitude = PFloat lon, altitude = PInt 0, isSet = PBool True\<rparr>
   \<and> target_fields
       (generate_random_gps (target_location (set_target_location lat lon (Some alt) w)) r1 r2 r3 t) =
     [Some (PFloat lat), Some (PFloat lon), Some alt, Some (PBool True)]
   \<and> target_fields (fst (get_android_gps loads cmd t (set_target_location lat lon (Some alt) w))) =
     [Some (PFloat lat), Some (PFloat lon), Some alt, Some (PBool True)]"
  by (simp add: target_fields_random target_fields_android) (simp add: target_location_set)

text \<open>
  C2. After \<^verbatim>\<open>clear_target_location()\<close> the registry holds \<^verbatim>\<open>None\<close>, \<^verbatim>\<open>None\<close>, the
  integer 0 and \<^verbatim>\<open>isSet = False\<close>, whatever was stored before, and the next packet of
  either script carries these four values.
\<close>

theorem clear_then_read:
  "target_location (clear_target_location w) =
     \<lparr>latitude = PNone, longitude = PNone, altitude = PInt 0, isSet = PBool False\<rparr>
   \<and> target_fields (generate_random_gps (target_location (clear_target_location w)) r1 r2 r3 t) =
     [Some PNone, Some PNone, Some (PInt 0), Some (PBool False)]
   \<and> target_fields (fst (get_android_gps loads cmd t (clear_target_location w))) =
     [Some PNone, Some PNone, Some (PInt 0), Some (PBool False)]"
  by (simp add: target_fields_random target_fields_android)
     (simp add: target_location_clear initial_target_def)

text \<open>
  Every state reached from the initial binding by calls of the two operations holds
  either the initial waypoint or one stored by \<^verbatim>\<open>set_target_location\<close>.
\<close>

lemma do_calls_target:
  "target_location w = initial_target \<or>
     (\<exists>lat lon alt. target_location w =
        \<lparr>latitude = PFloat lat, longitude = PFloat lon, altitude = alt, isSet = PBool True\<rparr>) \<Longrightarrow>
   target_location (do_calls cs w) = initial_target \<or>
     (\<exists>lat lon alt. target_location (do_calls cs w) =
        \<lparr>latitude = PFloat lat, longitude = PFloat lon, altitude = alt, isSet = PBool True\<rparr>)"
proof (induction cs arbitrary: w)
  case Nil
  then show ?case by simp
next
  case (Cons c cs)
  have "target_location (do_call c w) = initial_target \<or>
     (\<exists>lat lon alt. target_location (do_call c w) =
        \<lparr>latitude = PFloat lat, longitude = PFloat lon, altitude = alt, isSet = PBool True\<rparr>)"
    by (cases c) (simp_all add: target_location_set target_location_clear)
  from Cons.IH [OF this] show ?case by simp
qed

section \<open>Properties of the simulated source\<close>

lemma rhe_of_int [simp]: "round_half_even (of_int n) = n"
  by (simp add: round_half_even_def)

lemma rhe_cases: "round_half_even x = \<lfloor>x\<rfloor> \<or> round_half_even x = \<lfloor>x\<rfloor> + 1"
  by (simp add: round_half_even_def Let_def)

lemma rhe_mono: "x \<le> y \<Longrightarrow> round_half_even x \<le> round_half_even y"
proof (cases "\<lfloor>x\<rfloor> = \<lfloor>y\<rfloor>")
  case True
  assume "x \<le> y"
  with True show ?thesis
    by (auto simp: round_half_even_def Let_def)
next
  case False
  assume "x \<le> y"
  then have "\<lfloor>x\<rfloor> \<le> \<lfloor>y\<rfloor>" by (rule floor_mono)
  with False have "\<lfloor>x\<rfloor> + 1 \<le> \<lfloor>y\<rfloor>" by simp
  moreover have "round_half_even x \<le> \<lfloor>x\<rfloor> + 1" using rhe_cases [of x] by auto
  moreover have "\<lfloor>y\<rfloor> \<le> round_half_even y" using rhe_cases [of y] by auto
  ultimately show ?thesis by linarith
qed

lemma powr_powi_2:
  "(2::real) powr real_of_int k = 2 powi k"
  "(2::real) powr (real_of_int k + 1) = 2 powi (k + 1)"
  using powr_real_of_int' [of "2::real" k] powr_real_of_int' [of "2::real" "k + 1"]
  by simp_all

lemma binade_eq:
  assumes "2 powi k \<le> \<bar>x\<bar>" and "\<bar>x\<bar> < 2 powi (k + 1)"
  shows "binade x = k"
proof -
  have pos: "0 < \<bar>x\<bar>" using assms(1) by (smt (verit) zero_less_power_int)
  have "(2::real) powr real_of_int k \<le> \<bar>x\<bar> \<and> \<bar>x\<bar> < 2 powr (real_of_int k + 1)"
    unfolding powr_powi_2 using assms by simp
  then show ?thesis
    unfolding binade_def using floor_log_eq_powr_iff [OF pos, of 2 k] by simp
qed

lemma binade_bounds:
  assumes "0 < x"
  shows "2 powi binade x \<le> x" and "x < 2 powi (binade x + 1)"
proof -
  have "(2::real) powr real_of_int (binade x) \<le> x \<and> x < 2 powr (real_of_int (binade x) + 1)"
    using floor_log_eq_powr_iff [OF assms, of 2 "binade x"] assms by (simp add: binade_def)
  then show "2 powi binade x \<le> x" and "x < 2 powi (binade x + 1)"
    unfolding powr_powi_2 by simp_all
qed

lemma fl_binade:
  assumes "2 powi k \<le> x" and "x < 2 powi (k + 1)"
  shows "fl x = of_int (round_half_even (x / 2 powi (k - 52))) * 2 powi (k - 52)"
proof -
  have pos: "0 < x" using assms(1) by (smt (verit) zero_less_power_int)
  then have "binade x = k" using assms by (intro binade_eq) simp_all
  with pos show ?thesis by (simp add: fl_def)
qed

lemma fl_range:
  assumes "2 powi k \<le> x" and "x < 2 powi (k + 1)"
  shows "2 powi k \<le> fl x" and "fl x \<le> 2 powi (k + 1)"
proof -
  let ?q = "(2::real) powi (k - 52)"
  have q: "0 < ?q" by simp
  have lo: "(2::real) powi k = of_int (2 ^ 52) * ?q"
    by (simp add: power_int_diff)
  have hi: "(2::real) powi (k + 1) = of_int (2 ^ 53) * ?q"
    by (simp add: power_int_diff power_int_add)
  have "of_int (2 ^ 52) \<le> x / ?q"
    using assms(1) q unfolding lo by (simp add: pos_le_divide_eq)
  then have "round_half_even (of_int (2 ^ 52)) \<le> round_half_even (x / ?q)"
    by (rule rhe_mono)
  then have "(2 ^ 52 :: int) \<le> round_half_even (x / ?q)"
    by (simp only: rhe_of_int)
  then have "of_int (2 ^ 52) * ?q \<le> of_int (round_half_even (x / ?q)) * ?q"
    using q by (intro mult_right_mono) simp_all
  then show "2 powi k \<le> fl x"
    unfolding fl_binade [OF assms] lo .
  have "x / ?q \<le> of_int (2 ^ 53)"
    using assms(2) q unfolding hi by (simp add: pos_divide_le_eq)
  then have "round_half_even (x / ?q) \<le> round_half_even (of_int (2 ^ 53))"
    by (rule rhe_mono)
  then have "round_half_even (x / ?q) \<le> (2 ^ 53 :: int)"
    by (simp only: rhe_of_int)
  then have "of_int (round_half_even (x / ?q)) * ?q \<le> of_int (2 ^ 53) * ?q"
    using q by (intro mult_right_mono) simp_all
  then show "fl x \<le> 2 powi (k + 1)"
    unfolding fl_binade [OF assms] hi .
qed


lemma fl_zero [simp]: "fl 0 = 0"
  by (simp add: fl_def)

lemma fl_nonneg: "0 \<le> x \<Longrightarrow> 0 \<le> fl x"
proof (cases "x = 0")
  case True
  then show ?thesis by simp
next
  case False
  assume "0 \<le> x"
  with False have pos: "0 < x" by simp
  have "(0::real) < 2 powi binade x" by simp
  also have "\<dots> \<le> fl x"
    using fl_range(1) [OF binade_bounds [OF pos]] .
  finally show ?thesis by simp
qed

lemma binade_mono:
  assumes "0 < x" and "x \<le> y"
  shows "binade x \<le> binade y"
proof (rule ccontr)
  assume "\<not> binade x \<le> binade y"
  then have "binade y + 1 \<le> binade x" by simp
  then have "(2::real) powi (binade y + 1) \<le> 2 powi binade x"
    by (intro power_int_increasing) simp_all
  moreover have "y < 2 powi (binade y + 1)"
    using assms by (intro binade_bounds) simp
  moreover have "2 powi binade x \<le> x"
    using assms by (intro binade_bounds)
  ultimately show False using assms(2) by linarith
qed

lemma fl_mono:
  assumes "0 \<le> x" and "x \<le> y"
  shows "fl x \<le> fl y"
proof (cases "x = 0")
  case True
  with assms show ?thesis by (simp add: fl_nonneg)
next
  case False
  with assms have px: "0 < x" and py: "0 < y" by simp_all
  note bx = binade_bounds [OF px] and bi = binade_bounds [OF py]
  show ?thesis
  proof (cases "binade x = binade y")
    case True
    let ?q = "(2::real) powi (binade y - 52)"
    have "x / ?q \<le> y / ?q"
      using assms(2) by (simp add: divide_right_mono)
    then have "round_half_even (x / ?q) \<le> round_half_even (y / ?q)"
      by (rule rhe_mono)
    then have "of_int (round_half_even (x / ?q)) * ?q \<le> of_int (round_half_even (y / ?q)) * ?q"
      by (intro mult_right_mono) simp_all
    then show ?thesis
      using px py True by (simp add: fl_def)
  next
    case False
    with binade_mono [OF px assms(2)] have "binade x + 1 \<le> binade y" by simp
    then have "(2::real) powi (binade x + 1) \<le> 2 powi binade y"
      by (intro power_int_increasing) simp_all
    moreover have "fl x \<le> 2 powi (binade x + 1)"
      using fl_range(2) [OF bx] .
    moreover have "2 powi binade y \<le> fl y"
      using fl_range(1) [OF bi] .
    ultimately show ?thesis by linarith
  qed
qed

lemma fl_exact:
  assumes "2 powi k \<le> x" and "x < 2 powi (k + 1)" and "x / 2 powi (k - 52) = of_int m"
  shows "fl x = x"
proof -
  have "fl x = of_int (round_half_even (of_int m)) * 2 powi (k - 52)"
    by (simp only: fl_binade [OF assms(1,2)] assms(3))
  also have "\<dots> = x / 2 powi (k - 52) * 2 powi (k - 52)"
    by (simp only: rhe_of_int assms(3))
  also have "\<dots> = x" by simp
  finally show ?thesis .
qed

lemma fl_1: "fl 1 = 1"
  by (rule fl_exact [of 0 _ "2 ^ 52"]) simp_all

lemma fl_2: "fl 2 = 2"
  by (rule fl_exact [of 1 _ "2 ^ 52"]) simp_all

lemma fl_3: "fl 3 = 3"
  by (rule fl_exact [of 1 _ "3 * 2 ^ 51"]) simp_all

lemma fl_100: "fl 100 = 100"
  by (rule fl_exact [of 6 _ 7036874417766400]) simp_all

lemma rhe_nonneg: "0 \<le> x \<Longrightarrow> 0 \<le> round_half_even x"
  using rhe_mono [of 0 x] rhe_of_int [of 0] by simp

lemma uniform_bounds:
  assumes "0 \<le> a" and "a \<le> b" and "fl a = a" and "fl b = b" and "fl (b - a) = b - a"
      and "0 \<le> r" and "r < 1"
  shows "a \<le> uniform a b r" and "uniform a b r \<le> b"
proof -
  let ?d = "b - a"
  have d: "0 \<le> ?d" using assms(2) by simp
  have dr: "0 \<le> ?d * r" using d assms(6) by simp
  have "?d * r \<le> ?d * 1" using d assms(7) by (intro mult_left_mono) simp_all
  then have "fl (?d * r) \<le> fl ?d" using dr by (intro fl_mono) simp_all
  then have up: "fl (?d * r) \<le> ?d" by (simp only: assms(5))
  have lo: "0 \<le> fl (?d * r)" using dr by (rule fl_nonneg)
  have "fl a \<le> fl (a + fl (?d * r))"
    using assms(1) lo by (intro fl_mono) simp_all
  then show "a \<le> uniform a b r"
    by (simp add: uniform_def assms(3,5))
  have "fl (a + fl (?d * r)) \<le> fl b"
    using assms(1) lo up by (intro fl_mono) simp_all
  then show "uniform a b r \<le> b"
    by (simp add: uniform_def assms(4,5))
qed

lemma py_round_mono:
  assumes "0 \<le> x" and "x \<le> y"
  shows "py_round x n \<le> py_round y n"
proof -
  have "x * 10 ^ n \<le> y * 10 ^ n" using assms(2) by simp
  then have le: "round_half_even (x * 10 ^ n) \<le> round_half_even (y * 10 ^ n)"
    by (rule rhe_mono)
  have "0 \<le> round_half_even (x * 10 ^ n)"
    using assms(1) by (intro rhe_nonneg) simp
  then have "0 \<le> real_of_int (round_half_even (x * 10 ^ n)) / 10 ^ n" by simp
  moreover have "real_of_int (round_half_even (x * 10 ^ n)) / 10 ^ n
      \<le> real_of_int (round_half_even (y * 10 ^ n)) / 10 ^ n"
    using le by (simp add: divide_right_mono)
  ultimately show ?thesis
    unfolding py_round_def by (rule fl_mono)
qed

lemma range_bounds:
  assumes "0 \<le> a" and "a \<le> b" and "fl a = a" and "fl b = b" and "fl (b - a) = b - a"
      and "py_round a n = a" and "py_round b n = b"
      and "0 \<le> r" and "r < 1"
  shows "a \<le> py_round (uniform a b r) n" and "py_round (uniform a b r) n \<le> b"
proof -
  note u = uniform_bounds [OF assms(1-5) assms(8,9)]
  have "py_round a n \<le> py_round (uniform a b r) n"
    using assms(1) u(1) by (rule py_round_mono)
  then show "a \<le> py_round (uniform a b r) n" by (simp only: assms(6))
  have "0 \<le> uniform a b r" using assms(1) u(1) by linarith
  then have "py_round (uniform a b r) n \<le> py_round b n"
    using u(2) by (rule py_round_mono)
  then show "py_round (uniform a b r) n \<le> b" by (simp only: assms(7))
qed

lemma latitude_consts:
  fixes a b :: real
  defines "a \<equiv> fl (633 / 10)" and "b \<equiv> fl (635 / 10)"
  shows "0 \<le> a" and "a \<le> b" and "fl a = a" and "fl b = b" and "fl (b - a) = b - a"
    and "py_round a 4 = a" and "py_round b 4 = b"
proof -
  have a: "a = 4454341506446131 / 70368744177664"
    unfolding a_def by (subst fl_binade [of 5]) (simp_all add: round_half_even_def Let_def)
  have b': "fl (127 / 2) = 127 / 2"
    by (rule fl_exact [of 5 _ 8936830510563328]) simp_all
  have b: "b = 127 / 2"
    unfolding b_def using b' by simp
  show "0 \<le> a" and "a \<le> b" unfolding a b by simp_all
  show "fl a = a"
    unfolding a by (rule fl_exact [of 5 _ 8908683012892262]) simp_all
  show "fl b = b"
    unfolding b by (rule b')
  show "fl (b - a) = b - a"
    unfolding a b by (rule fl_exact [of "- 3" _ 7205759403792896]) simp_all
  show "py_round a 4 = a"
    using a [unfolded a_def] unfolding a by (simp add: py_round_def round_half_even_def Let_def)
  show "py_round b 4 = b"
    using b' unfolding b by (simp add: py_round_def round_half_even_def Let_def)
qed

lemma longitude_consts:
  fixes a b :: real
  defines "a \<equiv> fl (103 / 10)" and "b \<equiv> fl (107 / 10)"
  shows "0 \<le> a" and "a \<le> b" and "fl a = a" and "fl b = b" and "fl (b - a) = b - a"
    and "py_round a 4 = a" and "py_round b 4 = b"
proof -
  have a: "a = 2899192260119757 / 281474976710656"
    unfolding a_def by (subst fl_binade [of 3]) (simp_all add: round_half_even_def Let_def)
  have b: "b = 3011782250804019 / 281474976710656"
    unfolding b_def by (subst fl_binade [of 3]) (simp_all add: round_half_even_def Let_def)
  show "0 \<le> a" and "a \<le> b" unfolding a b by simp_all
  show "fl a = a"
    unfolding a by (rule fl_exact [of 3 _ 5798384520239514]) simp_all
  show "fl b = b"
    unfolding b by (rule fl_exact [of 3 _ 6023564501608038]) simp_all
  show "fl (b - a) = b - a"
    unfolding a b by (rule fl_exact [of "- 2" _ 7205759403792768]) simp_all
  show "py_round a 4 = a"
    using a [unfolded a_def] unfolding a by (simp add: py_round_def round_half_even_def Let_def)
  show "py_round b 4 = b"
    using b [unfolded b_def] unfolding b by (simp add: py_round_def round_half_even_def Let_def)
qed

lemma altitude_consts:
  shows "fl 0 = 0" and "fl 100 = 100" and "fl (100 - 0) = 100 - 0"
    and "py_round 0 1 = 0" and "py_round 100 1 = 100"
  by (simp_all add: fl_100 py_round_def round_half_even_def Let_def)

lemmas latitude_bounds = range_bounds [OF latitude_consts]
lemmas longitude_bounds = range_bounds [OF longitude_consts]
lemmas altitude_bounds = range_bounds [OF order_refl _ altitude_consts, simplified]

lemma uniform_zero: "fl a = a \<Longrightarrow> uniform a b 0 = a"
  by (simp add: uniform_def)

lemma fl_63_3: "fl (633 / 10) = 4454341506446131 / 70368744177664"
  by (subst fl_binade [of 5]) (simp_all add: round_half_even_def Let_def)

lemma fl_10_3: "fl (103 / 10) = 2899192260119757 / 281474976710656"
  by (subst fl_binade [of 3]) (simp_all add: round_half_even_def Let_def)

lemma lowest_reading:
  "generate_random_gps tg 0 0 0 t =
     [(''latitude'', PFloat (Finite (4454341506446131 / 70368744177664))),
      (''longitude'', PFloat (Finite (2899192260119757 / 281474976710656))),
      (''altitude'', PFloat (Finite 0)),
      (''timestamp'', PInt (timestamp_ms t)),
      (''valid'', PBool True),
      (''targetLatitude'', latitude tg),
      (''targetLongitude'', longitude tg),
      (''targetAltitude'', altitude tg),
      (''hasTarget'', isSet tg)]"
proof -
  have "py_round (uniform (fl (633 / 10)) (fl (635 / 10)) 0) 4 = fl (633 / 10)"
    by (simp only: uniform_zero [OF latitude_consts(3)] latitude_consts(6))
  moreover have "py_round (uniform (fl (103 / 10)) (fl (107 / 10)) 0) 4 = fl (103 / 10)"
    by (simp only: uniform_zero [OF longitude_consts(3)] longitude_consts(6))
  moreover have "py_round (uniform 0 100 0) 1 = 0"
    by (simp only: uniform_zero [OF altitude_consts(1)] altitude_consts(4))
  ultimately show ?thesis
    by (simp add: generate_random_gps_def fl_63_3 fl_10_3)
qed

text \<open>
  C5. For every draw of the three uniform random values, a poll of the simulated source
  has \<^verbatim>\<open>valid = True\<close>, a latitude between the doubles \<^verbatim>\<open>63.3\<close> and \<^verbatim>\<open>63.5\<close>, a
  longitude between the doubles \<^verbatim>\<open>10.3\<close> and \<^verbatim>\<open>10.7\<close> and an altitude between 0 and 100;
  latitude and longitude are doubles nearest to a decimal with four digits after the
  point, the altitude to one with a single digit. The bounds are the doubles that the
  literals denote, as a comparison in the script computes them.
\<close>

theorem random_gps_in_range:
  assumes "0 \<le> r1 \<and> r1 < 1" and "0 \<le> r2 \<and> r2 < 1" and "0 \<le> r3 \<and> r3 < 1"
  shows "\<exists>lat lon alt.
     map_of (generate_random_gps tg r1 r2 r3 t) ''latitude'' = Some (PFloat (Finite lat))
   \<and> map_of (generate_random_gps tg r1 r2 r3 t) ''longitude'' = Some (PFloat (Finite lon))
   \<and> map_of (generate_random_gps tg r1 r2 r3 t) ''altitude'' = Some (PFloat (Finite alt))
   \<and> map_of (generate_random_gps tg r1 r2 r3 t) ''valid'' = Some (PBool True)
   \<and> fl 63.3 \<le> lat \<and> lat \<le> fl 63.5
   \<and> fl 10.3 \<le> lon \<and> lon \<le> fl 10.7
   \<and> 0 \<le> alt \<and> alt \<le> 100
   \<and> (\<exists>k. lat = fl (of_int k / 10 ^ 4))
   \<and> (\<exists>k. lon = fl (of_int k / 10 ^ 4))
   \<and> (\<exists>k. alt = fl (of_int k / 10 ^ 1))"
proof -
  have k: "\<exists>k. py_round x n = fl (of_int k / 10 ^ n)" for x n
    unfolding py_round_def by blast
  show ?thesis
    using latitude_bounds [of r1] longitude_bounds [of r2] altitude_bounds [of r3] assms
      k [of "uniform (fl (633 / 10)) (fl (635 / 10)) r1" 4]
      k [of "uniform (fl (103 / 10)) (fl (107 / 10)) r2" 4]
      k [of "uniform 0 100 r3" 1]
    by (simp add: generate_random_gps_def)
qed

theorem random_gps_in_range_witness:
  "(0::real) \<le> 0 \<and> (0::real) < 1
   \<and> generate_random_gps initial_target 0 0 0 0 =
     [(''latitude'', PFloat (Finite (4454341506446131 / 70368744177664))),
      (''longitude'', PFloat (Finite (2899192260119757 / 281474976710656))),
      (''altitude'', PFloat (Finite 0)),
      (''timestamp'', PInt 0),
      (''valid'', PBool True),
      (''targetLatitude'', PNone),
      (''targetLongitude'', PNone),
      (''targetAltitude'', PInt 0),
      (''hasTarget'', PBool False)]
   \<and> fl 63.3 = 4454341506446131 / 70368744177664
   \<and> fl 63.3 \<le> 4454341506446131 / 70368744177664
   \<and> (4454341506446131 / 70368744177664 :: real) \<le> fl 63.5
   \<and> fl 10.3 \<le> 2899192260119757 / 281474976710656
   \<and> (2899192260119757 / 281474976710656 :: real) \<le> fl 10.7"
proof -
  let ?p = "generate_random_gps initial_target 0 0 0 0"
  have p: "?p =
     [(''latitude'', PFloat (Finite (4454341506446131 / 70368744177664))),
      (''longitude'', PFloat (Finite (2899192260119757 / 281474976710656))),
      (''altitude'', PFloat (Finite 0)),
      (''timestamp'', PInt 0),
      (''valid'', PBool True),
      (''targetLatitude'', PNone),
      (''targetLongitude'', PNone),
      (''targetAltitude'', PInt 0),
      (''hasTarget'', PBool False)]"
    by (simp add: lowest_reading initial_target_def timestamp_ms_def py_int_def)
  obtain lat lon alt where
    "map_of ?p ''latitude'' = Some (PFloat (Finite lat))"
    "map_of ?p ''longitude'' = Some (PFloat (Finite lon))"
    "fl 63.3 \<le> lat" "lat \<le> fl 63.5" "fl 10.3 \<le> lon" "lon \<le> fl 10.7"
    using random_gps_in_range [of 0 0 0 initial_target 0] by auto
  then have "fl 63.3 \<le> 4454341506446131 / 70368744177664"
    and "(4454341506446131 / 70368744177664 :: real) \<le> fl 63.5"
    and "fl 10.3 \<le> 2899192260119757 / 281474976710656"
    and "(2899192260119757 / 281474976710656 :: real) \<le> fl 10.7"
    unfolding p by simp_all
  with p show ?thesis by (simp add: fl_63_3)
qed

section \<open>Properties of the timestamp\<close>

lemma rhe_error: "\<bar>of_int (round_half_even y) - y\<bar> \<le> 1 / 2"
proof -
  have "of_int \<lfloor>y\<rfloor> \<le> y" "y < of_int \<lfloor>y\<rfloor> + 1" by linarith+
  then show ?thesis
    by (auto simp: round_half_even_def Let_def)
qed

lemma fl_error:
  assumes "0 < x"
  shows "\<bar>fl x - x\<bar> \<le> x / 2 ^ 53"
proof -
  let ?q = "(2::real) powi (binade x - 52)"
  note b = binade_bounds [OF assms]
  have q: "0 < ?q" by simp
  have fl: "fl x = of_int (round_half_even (x / ?q)) * ?q"
    using assms by (simp add: fl_def)
  have "fl x - x = (of_int (round_half_even (x / ?q)) - x / ?q) * ?q"
    unfolding fl using q by (simp add: algebra_simps)
  then have "\<bar>fl x - x\<bar> = \<bar>of_int (round_half_even (x / ?q)) - x / ?q\<bar> * ?q"
    using q by (simp add: abs_mult)
  also have "\<dots> \<le> 1 / 2 * ?q"
    using q by (intro mult_right_mono rhe_error) simp
  also have "1 / 2 * ?q = 2 powi binade x / 2 ^ 53"
    by (simp add: power_int_diff)
  also have "\<dots> \<le> x / 2 ^ 53"
    using b(1) by (simp add: divide_right_mono)
  finally show ?thesis .
qed

lemma timestamp_ms_bounds:
  assumes "0 \<le> t"
  shows "t * 1000 * (1 - 1 / 2 ^ 53) - 1 < of_int (timestamp_ms t)"
    and "of_int (timestamp_ms t) \<le> t * 1000 * (1 + 1 / 2 ^ 53)"
proof -
  let ?x = "t * 1000"
  have x: "0 \<le> ?x" using assms by simp
  have err: "\<bar>fl ?x - ?x\<bar> \<le> ?x / 2 ^ 53"
  proof (cases "t = 0")
    case True
    then show ?thesis by simp
  next
    case False
    with assms have "0 < ?x" by simp
    then show ?thesis by (rule fl_error)
  qed
  have ts: "timestamp_ms t = \<lfloor>fl ?x\<rfloor>"
    using fl_nonneg [OF x] by (simp add: timestamp_ms_def py_int_def)
  have f: "of_int \<lfloor>fl ?x\<rfloor> \<le> fl ?x" "fl ?x < of_int \<lfloor>fl ?x\<rfloor> + 1" by linarith+
  have e: "fl ?x \<le> ?x + ?x / 2 ^ 53" "?x - ?x / 2 ^ 53 \<le> fl ?x"
    using err by linarith+
  have r: "t * 1000 * (1 - 1 / 2 ^ 53) = ?x - ?x / 2 ^ 53"
    "t * 1000 * (1 + 1 / 2 ^ 53) = ?x + ?x / 2 ^ 53"
    by (simp_all only: distrib_left right_diff_distrib mult_1_right times_divide_eq_right)
  show "t * 1000 * (1 - 1 / 2 ^ 53) - 1 < of_int (timestamp_ms t)"
    unfolding ts r using f e by linarith
  show "of_int (timestamp_ms t) \<le> t * 1000 * (1 + 1 / 2 ^ 53)"
    unfolding ts r using f e by linarith
qed

lemma timestamp_ms_example: "timestamp_ms (3 / 2) = 1500"
proof -
  have "fl 1500 = 1500"
    by (rule fl_exact [of 10 _ "1500 * 2 ^ 42"]) simp_all
  then show ?thesis by (simp add: timestamp_ms_def py_int_def)
qed

section \<open>Properties of the live source and of the packets\<close>

lemma getitem_Inr_dict: "getitem v k = Inr x \<Longrightarrow> \<exists>d. v = PDict d"
  by (cases v) simp_all

lemma android_reading_causes:
  assumes "cmd = Inl e \<or>
           (\<exists>output. cmd = Inr output \<and>
              (loads output = Inl e \<or>
               (\<exists>location_data. loads output = Inr location_data \<and>
                  (getitem location_data ''latitude'' = Inl e \<or>
                   (\<exists>la. getitem location_data ''latitude'' = Inr la) \<and>
                   getitem location_data ''longitude'' = Inl e))))"
  shows "android_reading loads tg cmd t = Inl e"
  using assms by (auto simp: android_reading_def)

text \<open>The listed causes are the only ones.\<close>

lemma android_reading_Inl:
  assumes "android_reading loads tg cmd t = Inl e"
  shows "cmd = Inl e \<or>
           (\<exists>output. cmd = Inr output \<and>
              (loads output = Inl e \<or>
               (\<exists>location_data. loads output = Inr location_data \<and>
                  (getitem location_data ''latitude'' = Inl e \<or>
                   (\<exists>la. getitem location_data ''latitude'' = Inr la) \<and>
                   getitem location_data ''longitude'' = Inl e))))"
proof -
  have "get_default v ''altitude'' (PInt 0) \<noteq> Inl e'" if "getitem v ''latitude'' = Inr la" for v la e'
    using getitem_Inr_dict [OF that] by (auto split: option.splits)
  with assms show ?thesis
    by (auto simp: android_reading_def split: sum.splits)
qed

text \<open>
  C6. Whenever the body of the \<^verbatim>\<open>try\<close> in \<^verbatim>\<open>get_android_gps\<close> raises an exception
  \<open>e\<close> (the location command fails, its output does not parse, or the parsed value has
  no \<^verbatim>\<open>latitude\<close> or no \<^verbatim>\<open>longitude\<close>), the call returns the reading with zero
  latitude, longitude and altitude, \<^verbatim>\<open>valid = False\<close>, the current target entries and
  the timestamp of the clock reading \<open>t\<close>, which lies within one millisecond and one
  rounding error of \<open>1000 t\<close>; the only other effect is the printed line that names \<open>e\<close>.
\<close>

theorem android_failure_fallback:
  assumes "cmd = Inl e \<or>
           (\<exists>output. cmd = Inr output \<and>
              (loads output = Inl e \<or>
               (\<exists>location_data. loads output = Inr location_data \<and>
                  (getitem location_data ''latitude'' = Inl e \<or>
                   (\<exists>la. getitem location_data ''latitude'' = Inr la) \<and>
                   getitem location_data ''longitude'' = Inl e))))"
  shows "get_android_gps loads cmd t w =
           ([(''latitude'', PFloat (Finite 0)),
             (''longitude'', PFloat (Finite 0)),
             (''altitude'', PFloat (Finite 0)),
             (''timestamp'', PInt (timestamp_ms t)),
             (''valid'', PBool False),
             (''targetLatitude'', latitude (target_location w)),
             (''targetLongitude'', longitude (target_location w)),
             (''targetAltitude'', altitude (target_location w)),
             (''hasTarget'', isSet (target_location w))],
            print (Error_getting_gps e) w)
       \<and> (0 \<le> t \<longrightarrow>
            t * 1000 * (1 - 1 / 2 ^ 53) - 1 < of_int (timestamp_ms t) \<and>
            of_int (timestamp_ms t) \<le> t * 1000 * (1 + 1 / 2 ^ 53))"
  using android_reading_causes [OF assms, of "target_location w" t] timestamp_ms_bounds [of t]
  by (simp add: get_android_gps_def fallback_reading_def Let_def)

theorem android_failure_fallback_witness:
  "getitem (PDict []) ''latitude'' = Inl (KeyError ''latitude'')
   \<and> get_android_gps (\<lambda>s. Inr (PDict [])) (Inr ''{}'') (3 / 2) initial_world =
       ([(''latitude'', PFloat (Finite 0)),
         (''longitude'', PFloat (Finite 0)),
         (''altitude'', PFloat (Finite 0)),
         (''timestamp'', PInt 1500),
         (''valid'', PBool False),
         (''targetLatitude'', PNone),
         (''targetLongitude'', PNone),
         (''targetAltitude'', PInt 0),
         (''hasTarget'', PBool False)],
        print (Error_getting_gps (KeyError ''latitude'')) initial_world)
   \<and> get_android_gps (\<lambda>s. Inr (PDict [])) (Inl (Raised ''CalledProcessError'')) (3 / 2)
        (set_target_location (Finite 1) (Finite 2) None initial_world) =
       ([(''latitude'', PFloat (Finite 0)),
         (''longitude'', PFloat (Finite 0)),
         (''altitude'', PFloat (Finite 0)),
         (''timestamp'', PInt 1500),
         (''valid'', PBool False),
         (''targetLatitude'', PFloat (Finite 1)),
         (''targetLongitude'', PFloat (Finite 2)),
         (''targetAltitude'', PInt 0),
         (''hasTarget'', PBool True)],
        print (Error_getting_gps (Raised ''CalledProcessError''))
          (set_target_location (Finite 1) (Finite 2) None initial_world))
   \<and> (0::real) \<le> 3 / 2
   \<and> (3 / 2 :: real) * 1000 * (1 - 1 / 2 ^ 53) - 1 < 1500
   \<and> (1500 :: real) \<le> 3 / 2 * 1000 * (1 + 1 / 2 ^ 53)"
  using android_failure_fallback [where cmd = "Inr ''{}''" and loads = "\<lambda>s. Inr (PDict [])"
      and e = "KeyError ''latitude''" and t = "3 / 2" and w = initial_world]
    android_failure_fallback [where cmd = "Inl (Raised ''CalledProcessError'')"
      and loads = "\<lambda>s. Inr (PDict [])"
      and e = "Raised ''CalledProcessError''" and t = "3 / 2"
      and w = "set_target_location (Finite 1) (Finite 2) None initial_world"]
  by (simp add: initial_world_def initial_target_def timestamp_ms_example target_location_set)

lemma android_reading_keys:
  "android_reading loads tg cmd t = Inr p \<Longrightarrow>
   map fst p = [''latitude'', ''longitude'', ''altitude'', ''timestamp'', ''valid'',
                ''targetLatitude'', ''targetLongitude'', ''targetAltitude'', ''hasTarget'']
   \<and> map_of p ''timestamp'' = Some (PInt (timestamp_ms t))
   \<and> map_of p ''valid'' = Some (PBool True)"
  by (auto simp: android_reading_def split: sum.splits)

lemma get_android_gps_keys:
  "map fst (fst (get_android_gps loads cmd t w)) =
     [''latitude'', ''longitude'', ''altitude'', ''timestamp'', ''valid'',
      ''targetLatitude'', ''targetLongitude'', ''targetAltitude'', ''hasTarget'']
   \<and> map_of (fst (get_android_gps loads cmd t w)) ''timestamp'' = Some (PInt (timestamp_ms t))
   \<and> (\<exists>b. map_of (fst (get_android_gps loads cmd t w)) ''valid'' = Some (PBool b))"
  by (auto simp: get_android_gps_def fallback_reading_def Let_def
      dest: android_reading_keys split: sum.splits)

lemma target_fields_nth:
  "target_fields p = [a, b, c, d] \<Longrightarrow>
   map_of p ''targetLatitude'' = a \<and> map_of p ''targetLongitude'' = b \<and>
   map_of p ''targetAltitude'' = c \<and> map_of p ''hasTarget'' = d"
  by (simp add: target_fields_def target_keys_def)

lemma random_packet_shape:
  assumes "tg = initial_target \<or>
     (\<exists>lat lon alt. tg =
        \<lparr>latitude = PFloat lat, longitude = PFloat lon, altitude = alt, isSet = PBool True\<rparr>)"
  shows "map fst (generate_random_gps tg r1 r2 r3 t) =
           [''latitude'', ''longitude'', ''altitude'', ''timestamp'', ''valid'',
            ''targetLatitude'', ''targetLongitude'', ''targetAltitude'', ''hasTarget'']
         \<and> map_of (generate_random_gps tg r1 r2 r3 t) ''timestamp'' = Some (PInt (timestamp_ms t))
         \<and> (\<exists>b. map_of (generate_random_gps tg r1 r2 r3 t) ''valid'' = Some (PBool b))
         \<and> (\<exists>b. map_of (generate_random_gps tg r1 r2 r3 t) ''hasTarget'' = Some (PBool b))
         \<and> (map_of (generate_random_gps tg r1 r2 r3 t) ''targetLatitude'' = Some PNone \<or>
              (\<exists>x. map_of (generate_random_gps tg r1 r2 r3 t) ''targetLatitude'' = Some (PFloat x)))
         \<and> (map_of (generate_random_gps tg r1 r2 r3 t) ''targetLongitude'' = Some PNone \<or>
              (\<exists>x. map_of (generate_random_gps tg r1 r2 r3 t) ''targetLongitude'' = Some (PFloat x)))"
  using assms by (auto simp: generate_random_gps_def initial_target_def)

lemma android_packet_shape:
  assumes "target_location w = initial_target \<or>
     (\<exists>lat lon alt. target_location w =
        \<lparr>latitude = PFloat lat, longitude = PFloat lon, altitude = alt, isSet = PBool True\<rparr>)"
  shows "map fst (fst (get_android_gps loads cmd t w)) =
           [''latitude'', ''longitude'', ''altitude'', ''timestamp'', ''valid'',
            ''targetLatitude'', ''targetLongitude'', ''targetAltitude'', ''hasTarget'']
         \<and> map_of (fst (get_android_gps loads cmd t w)) ''timestamp'' = Some (PInt (timestamp_ms t))
         \<and> (\<exists>b. map_of (fst (get_android_gps loads cmd t w)) ''valid'' = Some (PBool b))
         \<and> (\<exists>b. map_of (fst (get_android_gps loads cmd t w)) ''hasTarget'' = Some (PBool b))
         \<and> (map_of (fst (get_android_gps loads cmd t w)) ''targetLatitude'' = Some PNone \<or>
              (\<exists>x. map_of (fst (get_android_gps loads cmd t w)) ''targetLatitude'' = Some (PFloat x)))
         \<and> (map_of (fst (get_android_gps loads cmd t w)) ''targetLongitude'' = Some PNone \<or>
              (\<exists>x. map_of (fst (get_android_gps loads cmd t w)) ''targetLongitude'' = Some (PFloat x)))"
proof -
  note a = target_fields_nth [OF target_fields_android [of loads cmd t w]]
  from assms show ?thesis
    unfolding a using get_android_gps_keys [of loads cmd t w]
    by (auto simp: a initial_target_def)
qed

section \<open>Properties of the operator console\<close>

lemma split_from_dropWhile: "split_from [] (dropWhile isspace s) = split_from [] s"
  by (induction s) auto

lemma split_from_spaces:
  "list_all isspace ws \<Longrightarrow> split_from cur ws = (if cur = [] then [] else [cur])"
  by (induction ws arbitrary: cur) auto

lemma split_from_trailing:
  "list_all isspace ws \<Longrightarrow> split_from cur (s @ ws) = split_from cur s"
proof (induction s arbitrary: cur)
  case Nil
  then show ?case by (simp add: split_from_spaces)
next
  case (Cons c s)
  then show ?case by simp
qed

lemma split_strip: "split (strip s) = split s"
proof -
  let ?t = "dropWhile isspace s"
  have "?t = rev (dropWhile isspace (rev ?t)) @ rev (takeWhile isspace (rev ?t))"
    by (metis rev_append rev_rev_ident takeWhile_dropWhile_id)
  moreover have "list_all isspace (rev (takeWhile isspace (rev ?t)))"
    by (simp add: list_all_iff) (meson set_takeWhileD)
  ultimately have "split_from [] ?t = split_from [] (rev (dropWhile isspace (rev ?t)))"
    by (metis split_from_trailing)
  then show ?thesis
    by (simp add: split_def strip_def split_from_dropWhile)
qed


lemma handle_user_input_yes:
  "lower cmd = ''y'' \<or> lower cmd = ''yes'' \<Longrightarrow>
   handle_user_input pf w (Inr cmd # Inr line # ls) =
     handle_user_input pf
       (coordinates_entry pf line (print Prompt_coordinates (print Prompt_command w))) ls"
  by (auto simp: Let_def)

lemma handle_user_input_coordinates_raise:
  "lower cmd = ''y'' \<or> lower cmd = ''yes'' \<Longrightarrow>
   handle_user_input pf w (Inr cmd # Inl e # ls) =
     handle_user_input pf
       (print (if e = ValueError then Invalid_coordinates else Console_error e)
          (print Prompt_coordinates (print Prompt_command w))) ls"
  by (auto simp: Let_def)

lemma coordinates_entry_few:
  "length (split line) < 2 \<Longrightarrow> coordinates_entry pf line w = print Invalid_format w"
  by (simp add: coordinates_entry_def split_strip Let_def)

lemma coordinates_entry_bad:
  "2 \<le> length (split line) \<Longrightarrow> \<exists>t\<in>set (take 3 (split line)). pf t = None \<Longrightarrow>
   coordinates_entry pf line w = print Invalid_coordinates w"
proof -
  assume len: "2 \<le> length (split line)" and bad: "\<exists>t\<in>set (take 3 (split line)). pf t = None"
  from len obtain t1 t2 others where parts: "split line = t1 # t2 # others"
    by (cases "split line"; cases "tl (split line)") auto
  show ?thesis
  proof (cases others)
    case Nil
    with parts bad show ?thesis
      by (auto simp: coordinates_entry_def split_strip Let_def split: option.splits)
  next
    case (Cons t3 extra)
    with parts bad show ?thesis
      by (auto simp: coordinates_entry_def split_strip Let_def split: option.splits)
  qed
qed

lemma coordinates_entry_two:
  "split line = [t1, t2] \<Longrightarrow> pf t1 = Some lat \<Longrightarrow> pf t2 = Some lon \<Longrightarrow>
   coordinates_entry pf line w = set_target_location lat lon (Some (PInt 0)) w"
  by (simp add: coordinates_entry_def split_strip Let_def)

lemma coordinates_entry_three:
  "split line = t1 # t2 # t3 # extra \<Longrightarrow> pf t1 = Some lat \<Longrightarrow> pf t2 = Some lon \<Longrightarrow>
   pf t3 = Some alt \<Longrightarrow>
   coordinates_entry pf line w = set_target_location lat lon (Some (PFloat alt)) w"
  by (simp add: coordinates_entry_def split_strip Let_def)

lemma float_of_digits_examples:
  "float_of_digits ''1'' = Some (Finite 1)"
  "float_of_digits ''2'' = Some (Finite 2)"
  "float_of_digits ''3'' = Some (Finite 3)"
  "float_of_digits ''abc'' = None"
  "float_of_digits ''def'' = None"
  by (simp_all add: float_of_digits_def fl_1 fl_2 fl_3)

lemma split_examples:
  "split ''1 2 3 4'' = [''1'', ''2'', ''3'', ''4'']"
  "split ''1 2'' = [''1'', ''2'']"
  "split ''abc def'' = [''abc'', ''def'']"
  "split ''abc'' = [''abc'']"
  "split '''' = []"
  by (simp_all add: split_def isspace_def)

lemma lower_examples: "lower ''y'' = ''y''" "lower ''yes'' = ''yes''" "lower ''help'' = ''help''"
  by (simp_all add: lower_def lower_char_def)

lemma handle_user_input_done:
  "target_location (handle_user_input pf w []) = target_location w"
  "stdout (handle_user_input pf w []) = stdout w @ [Prompt_command]"
  by (simp_all add: print_def)

text \<open>
  C10. After a \<^verbatim>\<open>y\<close> or \<^verbatim>\<open>yes\<close> command, a coordinate line with two or more tokens
  whose first two and, when present, third token parse as floats makes the console call
  \<^verbatim>\<open>set_target_location\<close> with these tokens alone (altitude 0 when there are only two):
  the tokens after the third are never looked at, and the loop goes on with the next line.
\<close>

theorem extra_tokens_ignored:
  assumes "lower cmd = ''y'' \<or> lower cmd = ''yes''"
      and "split line = t1 # t2 # others"
      and "parse_float t1 = Some lat"
      and "parse_float t2 = Some lon"
      and "others = [] \<and> alt = PInt 0 \<or>
           (\<exists>t3 extra a. others = t3 # extra \<and> parse_float t3 = Some a \<and> alt = PFloat a)"
  shows "handle_user_input parse_float w (Inr cmd # Inr line # ls) =
           handle_user_input parse_float
             (set_target_location lat lon (Some alt)
                (print Prompt_coordinates (print Prompt_command w))) ls"
  using assms
  by (auto simp only: handle_user_input_yes coordinates_entry_two coordinates_entry_three)

theorem extra_tokens_ignored_witness:
  "lower ''y'' = ''y''
   \<and> split ''1 2 3 4'' = [''1'', ''2'', ''3'', ''4'']
   \<and> float_of_digits ''1'' = Some (Finite 1)
   \<and> float_of_digits ''2'' = Some (Finite 2)
   \<and> float_of_digits ''3'' = Some (Finite 3)
   \<and> handle_user_input float_of_digits initial_world [Inr ''y'', Inr ''1 2 3 4''] =
       handle_user_input float_of_digits
         (set_target_location (Finite 1) (Finite 2) (Some (PFloat (Finite 3)))
            (print Prompt_coordinates (print Prompt_command initial_world))) []
   \<and> target_location (handle_user_input float_of_digits initial_world [Inr ''y'', Inr ''1 2 3 4'']) =
       \<lparr>latitude = PFloat (Finite 1), longitude = PFloat (Finite 2),
        altitude = PFloat (Finite 3), isSet = PBool True\<rparr>"
  using extra_tokens_ignored [where cmd = "''y''" and line = "''1 2 3 4''" and ?t1.0 = "''1''"
      and ?t2.0 = "''2''" and others = "[''3'', ''4'']" and parse_float = float_of_digits
      and lat = "Finite 1" and lon = "Finite 2" and alt = "PFloat (Finite 3)"
      and w = initial_world and ls = "[]"]
  by (simp add: float_of_digits_examples split_examples lower_examples target_location_set
      handle_user_input_done del: handle_user_input.simps)

text \<open>
  C7 as the specification words it fails: a line with four tokens has the wrong token count
  for \<^verbatim>\<open>lat lon [alt]\<close>, yet no format error is printed and the registry changes; and the
  single word \<^verbatim>\<open>abc\<close>, which is not a number, is answered with the format error, not the
  parse error.
\<close>

theorem wrong_count_accepted:
  "length (split ''1 2 3 4'') = 4
   \<and> Invalid_format \<notin> set (stdout (handle_user_input float_of_digits initial_world [Inr ''y'', Inr ''1 2 3 4'']))
   \<and> target_location (handle_user_input float_of_digits initial_world [Inr ''y'', Inr ''1 2 3 4'']) =
       \<lparr>latitude = PFloat (Finite 1), longitude = PFloat (Finite 2),
        altitude = PFloat (Finite 3), isSet = PBool True\<rparr>
   \<and> target_location initial_world =
       \<lparr>latitude = PNone, longitude = PNone, altitude = PInt 0, isSet = PBool False\<rparr>
   \<and> float_of_digits ''abc'' = None
   \<and> Invalid_coordinates \<notin> set (stdout (handle_user_input float_of_digits initial_world [Inr ''y'', Inr ''abc'']))"
  by (simp add: float_of_digits_examples split_examples lower_examples split_strip
      coordinates_entry_def set_target_location_def print_def initial_world_def
      initial_target_def Let_def)

text \<open>
  C7, as the console has it. After a \<^verbatim>\<open>y\<close> or \<^verbatim>\<open>yes\<close> command, a coordinate line with
  fewer than two tokens is answered with the format error, and a line with two or more
  tokens in which one of the first three does not parse as a float is answered with the
  parse error; either way the registry is unchanged and the loop goes on with the next
  line.
\<close>

theorem bad_coordinates_reported:
  assumes "lower cmd = ''y'' \<or> lower cmd = ''yes''"
  shows "(length (split line) < 2 \<longrightarrow>
            handle_user_input parse_float w (Inr cmd # Inr line # ls) =
              handle_user_input parse_float
                (print Invalid_format (print Prompt_coordinates (print Prompt_command w))) ls)
       \<and> (2 \<le> length (split line) \<and> (\<exists>t\<in>set (take 3 (split line)). parse_float t = None) \<longrightarrow>
            handle_user_input parse_float w (Inr cmd # Inr line # ls) =
              handle_user_input parse_float
                (print Invalid_coordinates (print Prompt_coordinates (print Prompt_command w))) ls)
       \<and> target_location
            (print Invalid_format (print Prompt_coordinates (print Prompt_command w))) =
          target_location w
       \<and> target_location
            (print Invalid_coordinates (print Prompt_coordinates (print Prompt_command w))) =
          target_location w"
  using assms
  by (simp add: handle_user_input_yes coordinates_entry_few coordinates_entry_bad)

theorem bad_coordinates_reported_witness:
  "lower ''y'' = ''y''
   \<and> length (split ''abc'') < 2
   \<and> handle_user_input float_of_digits initial_world [Inr ''y'', Inr ''abc'', Inr ''help''] =
       handle_user_input float_of_digits
         (print Invalid_format (print Prompt_coordinates (print Prompt_command initial_world)))
         [Inr ''help'']
   \<and> 2 \<le> length (split ''abc def'')
   \<and> ''abc'' \<in> set (take 3 (split ''abc def''))
   \<and> float_of_digits ''abc'' = None
   \<and> handle_user_input float_of_digits initial_world [Inr ''y'', Inr ''abc def'', Inr ''help''] =
       handle_user_input float_of_digits
         (print Invalid_coordinates (print Prompt_coordinates (print Prompt_command initial_world)))
         [Inr ''help'']
   \<and> target_location (handle_user_input float_of_digits initial_world [Inr ''y'', Inr ''abc def'', Inr ''help''])
       = target_location initial_world
   \<and> stdout (handle_user_input float_of_digits initial_world [Inr ''y'', Inr ''abc def'', Inr ''help'']) =
       [Prompt_command, Prompt_coordinates, Invalid_coordinates, Prompt_command, Help_text,
        Prompt_command]"
  using bad_coordinates_reported [where cmd = "''y''" and line = "''abc''"
      and parse_float = float_of_digits and w = initial_world and ls = "[Inr ''help'']"]
    bad_coordinates_reported [where cmd = "''y''" and line = "''abc def''"
      and parse_float = float_of_digits and w = initial_world and ls = "[Inr ''help'']"]
  by (simp add: float_of_digits_examples split_examples lower_examples print_def
      initial_world_def)

section \<open>Properties of the client sessions\<close>

lemma send_loop_append:
  "send_loop dumps poll c (pre @ rest) w =
     (case send_loop dumps poll c pre w of
        (w1, None) \<Rightarrow> send_loop dumps poll c rest w1
      | (w1, Some ex) \<Rightarrow> (w1, Some ex))"
  by (induction pre arbitrary: w)
     (auto simp: Let_def split: prod.splits sum.splits option.splits)

lemma send_loop_failing_round:
  assumes "dumps (fst (poll e w)) = Inl ex \<or>
           (\<exists>json_data. dumps (fst (poll e w)) = Inr json_data) \<and> sr = Inl ex"
  shows "send_loop dumps poll c ((e, sr) # rest) w = (snd (poll e w), Some ex)"
  using assms by (auto simp: DEBUG_MODE_def split: prod.splits sum.splits)

lemma sockets_simps [simp]:
  "sockets (print l w) = sockets w"
  "sockets (socket_send c bytes w) c' =
     (if c' = c then (sockets w c)\<lparr>sent := sent (sockets w c) @ [bytes]\<rparr> else sockets w c')"
  "sockets (socket_close c w) c' =
     (if c' = c then (sockets w c)\<lparr>is_open := False\<rparr> else sockets w c')"
  "target_location (socket_send c bytes w) = target_location w"
  "target_location (socket_close c w) = target_location w"
  by (simp_all add: print_def socket_send_def socket_close_def)

lemma send_loop_frame:
  assumes frame: "\<And>e w. sockets (snd (poll e w)) = sockets w"
                 "\<And>e w. target_location (snd (poll e w)) = target_location w"
      and run: "send_loop dumps poll c rounds w = (w1, r)"
  shows "(\<forall>c'. c' \<noteq> c \<longrightarrow> sockets w1 c' = sockets w c')
       \<and> is_open (sockets w1 c) = is_open (sockets w c)
       \<and> target_location w1 = target_location w
       \<and> (r = None \<longrightarrow> length (sent (sockets w1 c)) = length (sent (sockets w c)) + length rounds)"
  using run
proof (induction rounds arbitrary: w)
  case Nil
  then show ?case by simp
next
  case (Cons a rounds)
  obtain e sr where a: "a = (e, sr)" by (cases a)
  obtain p w' where p: "poll e w = (p, w')" by (cases "poll e w")
  have w': "sockets w' = sockets w" "target_location w' = target_location w"
    using frame [of e w] p by simp_all
  show ?case
  proof (cases "dumps p")
    case (Inl ex)
    with Cons.prems a p w' show ?thesis by auto
  next
    case (Inr json_data)
    show ?thesis
    proof (cases sr)
      case (Inl ex)
      with Cons.prems a p w' Inr show ?thesis by (auto simp: DEBUG_MODE_def)
    next
      case sent: (Inr n)
      with Cons.prems a p Inr
      have "send_loop dumps poll c rounds (socket_send c (take n json_data) w') = (w1, r)"
        by (simp add: DEBUG_MODE_def)
      from Cons.IH [OF this] w' show ?thesis by simp
    qed
  qed
qed

lemma session_ends:
  assumes frame: "\<And>e w. sockets (snd (poll e w)) = sockets w"
                 "\<And>e w. target_location (snd (poll e w)) = target_location w"
      and ok: "send_loop dumps poll c pre (print Client_connected w) = (w1, None)"
      and fail: "dumps (fst (poll e w1)) = Inl ex \<or>
                 (\<exists>json_data. dumps (fst (poll e w1)) = Inr json_data) \<and> sr = Inl ex"
  shows "\<exists>w'. handle_client dumps poll c (pre @ (e, sr) # rest) w = (w', Ended)
           \<and> handle_client dumps poll c (pre @ [(e, sr)]) w = (w', Ended)
           \<and> \<not> is_open (sockets w' c)
           \<and> sent (sockets w' c) = sent (sockets w1 c)
           \<and> length (sent (sockets w' c)) = length (sent (sockets w c)) + length pre
           \<and> (\<forall>c'. c' \<noteq> c \<longrightarrow> sockets w' c' = sockets w c')
           \<and> target_location w' = target_location w"
proof -
  let ?w2 = "snd (poll e w1)"
  let ?w' = "socket_close c (print (Connection_closed ex) ?w2)"
  have loop: "send_loop dumps poll c (pre @ (e, sr) # rs) (print Client_connected w) = (?w2, Some ex)"
    for rs
    using send_loop_failing_round [of dumps poll e w1 ex sr c rs] fail
    by (simp add: send_loop_append ok)
  have 1: "handle_client dumps poll c (pre @ (e, sr) # rs) w = (?w', Ended)" for rs
    by (simp add: handle_client_def loop)
  note f = send_loop_frame [OF frame ok]
  have 2: "sockets ?w2 = sockets w1" "target_location ?w2 = target_location w1"
    using frame by simp_all
  show ?thesis
    using 1 [of rest] 1 [of "[]"] f 2 by (intro exI [of _ ?w']) simp
qed

lemma pc_poll_frame:
  "sockets (snd (pc_poll e w)) = sockets w"
  "target_location (snd (pc_poll e w)) = target_location w"
  by (simp_all add: pc_poll_def split: prod.splits)

lemma android_poll_frame:
  "sockets (snd (android_poll loads e w)) = sockets w"
  "target_location (snd (android_poll loads e w)) = target_location w"
  by (auto simp: android_poll_def get_android_gps_def Let_def split: prod.splits sum.splits)

text \<open>
  C8. In either script, when the rounds before have all sent their message and a round
  raises \<open>ex\<close> in \<^verbatim>\<open>json.dumps\<close> or in \<^verbatim>\<open>client_socket.send\<close>, \<^verbatim>\<open>handle_client\<close>
  returns: the loop is left at that round whatever rounds would follow (nothing is sent
  again), the session's socket is closed with one message sent for each earlier round, and
  every other socket of the process, the listening one among them, and the registry are as
  they were.
\<close>

theorem session_error_ends_session:
  shows "(send_loop dumps pc_poll c pre (print Client_connected w) = (w1, None)
          \<and> (dumps (fst (pc_poll e w1)) = Inl ex \<or>
               (\<exists>json_data. dumps (fst (pc_poll e w1)) = Inr json_data) \<and> sr = Inl ex)
          \<longrightarrow> (\<exists>w'. handle_client dumps pc_poll c (pre @ (e, sr) # rest) w = (w', Ended)
                 \<and> handle_client dumps pc_poll c (pre @ [(e, sr)]) w = (w', Ended)
                 \<and> \<not> is_open (sockets w' c)
                 \<and> sent (sockets w' c) = sent (sockets w1 c)
                 \<and> length (sent (sockets w' c)) = length (sent (sockets w c)) + length pre
                 \<and> (\<forall>c'. c' \<noteq> c \<longrightarrow> sockets w' c' = sockets w c')
                 \<and> target_location w' = target_location w))
       \<and> (send_loop dumps (android_poll loads) c pre' (print Client_connected w) = (w1', None)
          \<and> (dumps (fst (android_poll loads e' w1')) = Inl ex \<or>
               (\<exists>json_data. dumps (fst (android_poll loads e' w1')) = Inr json_data) \<and> sr = Inl ex)
          \<longrightarrow> (\<exists>w'. handle_client dumps (android_poll loads) c (pre' @ (e', sr) # rest') w = (w', Ended)
                 \<and> handle_client dumps (android_poll loads) c (pre' @ [(e', sr)]) w = (w', Ended)
                 \<and> \<not> is_open (sockets w' c)
                 \<and> sent (sockets w' c) = sent (sockets w1' c)
                 \<and> length (sent (sockets w' c)) = length (sent (sockets w c)) + length pre'
                 \<and> (\<forall>c'. c' \<noteq> c \<longrightarrow> sockets w' c' = sockets w c')
                 \<and> target_location w' = target_location w))"
  using session_ends [of pc_poll dumps c pre w w1 e ex sr rest, OF pc_poll_frame]
    session_ends [of "android_poll loads" dumps c pre' w w1' e' ex sr rest', OF android_poll_frame]
  by blast

theorem session_error_ends_session_witness:
  "send_loop (\<lambda>p. Inr ''{}'') pc_poll 1 [((0, 0, 0, 0), Inr 2)]
       (print Client_connected initial_world) =
     (socket_send 1 ''{}'' (print Client_connected initial_world), None)
   \<and> handle_client (\<lambda>p. Inr ''{}'') pc_poll 1
       [((0, 0, 0, 0), Inr 2), ((0, 0, 0, 0), Inl (Raised ''BrokenPipeError'')),
        ((0, 0, 0, 0), Inr 2)] initial_world =
     (socket_close 1 (print (Connection_closed (Raised ''BrokenPipeError''))
        (socket_send 1 ''{}'' (print Client_connected initial_world))), Ended)
   \<and> sent (sockets (fst (handle_client (\<lambda>p. Inr ''{}'') pc_poll 1
       [((0, 0, 0, 0), Inr 2), ((0, 0, 0, 0), Inl (Raised ''BrokenPipeError'')),
        ((0, 0, 0, 0), Inr 2)] initial_world)) 1) = [''{}'']
   \<and> sockets (fst (handle_client (\<lambda>p. Inr ''{}'') pc_poll 1
       [((0, 0, 0, 0), Inr 2), ((0, 0, 0, 0), Inl (Raised ''BrokenPipeError'')),
        ((0, 0, 0, 0), Inr 2)] initial_world)) 0 = sockets initial_world 0"
  using session_error_ends_session [where dumps = "\<lambda>p. Inr ''{}''" and c = 1
      and pre = "[((0, 0, 0, 0), Inr 2)]" and w = initial_world
      and ?w1.0 = "socket_send 1 ''{}'' (print Client_connected initial_world)"
      and e = "(0, 0, 0, 0)" and sr = "Inl (Raised ''BrokenPipeError'')"
      and ex = "Raised ''BrokenPipeError''" and rest = "[((0, 0, 0, 0), Inr 2)]"]
  by (simp add: handle_client_def pc_poll_def DEBUG_MODE_def initial_world_def socket_send_def
      socket_close_def print_def)

section \<open>Properties of a poll interleaved with the console\<close>

lemma target_in_written: "target_location w \<in> set (written w sched)"
  by (induction w sched rule: written.induct) simp_all

lemma written_Cons_subset: "set (written (fst (step (w, seen) s)) sched) \<subseteq> set (written w (s # sched))"
  by (cases s) auto

lemma reads_from_written:
  assumes "\<forall>i<length seen. \<exists>tg\<in>S. seen ! i = fields tg ! i"
      and "set (written w sched) \<subseteq> S"
      and "length seen \<le> length target_reads"
  shows "\<forall>i<length (snd (foldl step (w, seen) sched)).
           \<exists>tg\<in>S. snd (foldl step (w, seen) sched) ! i = fields tg ! i"
  using assms
proof (induction sched arbitrary: w seen)
  case Nil
  then show ?case by simp
next
  case (Cons s sched)
  show ?case
  proof (cases s)
    case (Console c)
    with Cons.prems have "set (written (do_call c w) sched) \<subseteq> S" by auto
    from Cons.IH [OF Cons.prems(1) this Cons.prems(3)] Console show ?thesis by simp
  next
    case Reader
    show ?thesis
    proof (cases "length seen < length target_reads")
      case False
      with Cons.prems Reader have "set (written w sched) \<subseteq> S" by simp
      from Cons.IH [OF Cons.prems(1) this Cons.prems(3)] Reader False show ?thesis by simp
    next
      case True
      let ?seen = "seen @ [(target_reads ! length seen) (target_location w)]"
      from Cons.prems Reader have sub: "set (written w sched) \<subseteq> S" by simp
      then have cur: "target_location w \<in> S" using target_in_written by blast
      have "(target_reads ! length seen) (target_location w) = fields (target_location w) ! length seen"
        using True by (simp add: fields_def)
      with Cons.prems(1) cur have "\<forall>i<length ?seen. \<exists>tg\<in>S. ?seen ! i = fields tg ! i"
        by (auto simp: nth_append less_Suc_eq)
      moreover have "length ?seen \<le> length target_reads" using True by simp
      ultimately show ?thesis
        using Cons.IH [of ?seen w] sub Reader True by simp
    qed
  qed
qed

lemma foldl_step_Console:
  "foldl step (w, seen) (map Console cs) = (do_calls cs w, seen)"
  by (induction cs arbitrary: w) simp_all

lemma foldl_step_full:
  "length seen = length target_reads \<Longrightarrow> snd (foldl step (w, seen) sched) = seen"
proof (induction sched arbitrary: w)
  case Nil
  then show ?case by simp
next
  case (Cons s sched)
  then show ?case by (cases s) simp_all
qed

lemma four_reads:
  "foldl step (w, []) [Reader, Reader, Reader, Reader] = (w, fields (target_location w))"
  by (simp add: target_reads_def fields_def)

text \<open>
  C4 as the specification words it fails: the four reads of a poll are separate steps, and
  a \<^verbatim>\<open>set_target_location\<close> between the first and the second gives a snapshot that is
  neither the waypoint bound before nor the one bound by the call.
\<close>

theorem torn_read:
  "snd (interleave
     [Reader, Console (Set_target (Finite 1) (Finite 2) (Some (PFloat (Finite 3)))),
      Reader, Reader, Reader] initial_world) =
     [PNone, PFloat (Finite 2), PFloat (Finite 3), PBool True]
   \<and> written initial_world
     [Reader, Console (Set_target (Finite 1) (Finite 2) (Some (PFloat (Finite 3)))),
      Reader, Reader, Reader] =
     [\<lparr>latitude = PNone, longitude = PNone, altitude = PInt 0, isSet = PBool False\<rparr>,
      \<lparr>latitude = PFloat (Finite 1), longitude = PFloat (Finite 2),
       altitude = PFloat (Finite 3), isSet = PBool True\<rparr>]
   \<and> [PNone, PFloat (Finite 2), PFloat (Finite 3), PBool True] \<notin>
       set (map fields (written initial_world
         [Reader, Console (Set_target (Finite 1) (Finite 2) (Some (PFloat (Finite 3)))),
          Reader, Reader, Reader]))"
  by (simp add: interleave_def target_reads_def fields_def initial_world_def initial_target_def
      target_location_set)

text \<open>
  C4, as the scripts have it. Under every schedule each value a poll reads is the matching
  field of a waypoint that was bound whole; a poll whose four reads follow one another
  with no console call between them reads one whole waypoint, the one bound at that time,
  whatever the console does before and after; and these four values are the target
  entries of the packet that either script builds in that state.
\<close>

theorem reads_are_of_whole_waypoints:
  "(\<forall>i<length (snd (interleave sched w)).
      \<exists>tg\<in>set (written w sched). snd (interleave sched w) ! i = fields tg ! i)
   \<and> snd (interleave (map Console cs @ [Reader, Reader, Reader, Reader] @ later) w) =
       fields (target_location (do_calls cs w))
   \<and> map Some (fields (target_location (do_calls cs w))) =
       target_fields (generate_random_gps (target_location (do_calls cs w)) r1 r2 r3 t)
   \<and> map Some (fields (target_location (do_calls cs w))) =
       target_fields (fst (get_android_gps loads cmd t (do_calls cs w)))"
proof -
  have a: "\<forall>i<length (snd (interleave sched w)).
      \<exists>tg\<in>set (written w sched). snd (interleave sched w) ! i = fields tg ! i"
    unfolding interleave_def by (rule reads_from_written) simp_all
  have "snd (foldl step (foldl step (do_calls cs w, []) [Reader, Reader, Reader, Reader]) later) =
      fields (target_location (do_calls cs w))"
    unfolding four_reads by (rule foldl_step_full) (simp add: fields_def)
  then have b: "snd (interleave (map Console cs @ [Reader, Reader, Reader, Reader] @ later) w) =
       fields (target_location (do_calls cs w))"
    by (simp only: interleave_def foldl_append foldl_step_Console)
  show ?thesis
    using a b by (simp add: target_fields_random target_fields_android) (simp add: fields_def target_reads_def)
qed

theorem reads_are_of_whole_waypoints_witness:
  "length (snd (interleave
     [Reader, Console (Set_target (Finite 1) (Finite 2) (Some (PFloat (Finite 3)))),
      Reader, Reader, Reader] initial_world)) = 4
   \<and> (\<exists>tg\<in>set (written initial_world
          [Reader, Console (Set_target (Finite 1) (Finite 2) (Some (PFloat (Finite 3)))),
           Reader, Reader, Reader]).
        snd (interleave
          [Reader, Console (Set_target (Finite 1) (Finite 2) (Some (PFloat (Finite 3)))),
           Reader, Reader, Reader] initial_world) ! 0 = fields tg ! 0)
   \<and> snd (interleave
        (map Console [Set_target (Finite 1) (Finite 2) (Some (PFloat (Finite 3)))] @
         [Reader, Reader, Reader, Reader] @ [Console Clear_target]) initial_world) =
       [PFloat (Finite 1), PFloat (Finite 2), PFloat (Finite 3), PBool True]"
  using reads_are_of_whole_waypoints [where w = initial_world
      and sched = "[Reader, Console (Set_target (Finite 1) (Finite 2) (Some (PFloat (Finite 3)))),
         Reader, Reader, Reader]"
      and cs = "[Set_target (Finite 1) (Finite 2) (Some (PFloat (Finite 3)))]"
      and later = "[Console Clear_target]"]
  by (simp add: interleave_def target_reads_def fields_def initial_world_def initial_target_def
      target_location_set)

section \<open>Properties of the packets under the interleaving\<close>

lemma uninterrupted_reads:
  "snd (interleave (map Console cs @ [Reader, Reader, Reader, Reader] @ later) w) =
     fields (target_location (do_calls cs w))"
proof -
  have "snd (foldl step (foldl step (do_calls cs w, []) [Reader, Reader, Reader, Reader]) later) =
      fields (target_location (do_calls cs w))"
    unfolding four_reads by (rule foldl_step_full) (simp add: fields_def)
  then show ?thesis
    by (simp only: interleave_def foldl_append foldl_step_Console)
qed

lemma fields_nth:
  "fields tg ! 0 = latitude tg" "fields tg ! 1 = longitude tg"
  "fields tg ! 2 = altitude tg" "fields tg ! 3 = isSet tg"
  "fields tg ! Suc 0 = longitude tg"
  by (simp_all add: fields_def target_reads_def numeral_3_eq_3 numeral_2_eq_2)

text \<open>
  C3 as the specification words it fails for the packets: the four target entries are read
  one by one, and a \<^verbatim>\<open>clear_target_location\<close> between the second and the third read
  gives a packet with \<^verbatim>\<open>hasTarget = false\<close> and numeric coordinates, a
  \<^verbatim>\<open>set_target_location\<close> there one with \<^verbatim>\<open>hasTarget = true\<close> and null coordinates.
\<close>

theorem unset_with_coordinates:
  "snd (interleave
     [Console (Set_target (Finite 1) (Finite 2) None), Reader, Reader, Console Clear_target,
      Reader, Reader] initial_world) =
     [PFloat (Finite 1), PFloat (Finite 2), PInt 0, PBool False]
   \<and> snd (interleave
     [Reader, Reader, Console (Set_target (Finite 1) (Finite 2) (Some (PFloat (Finite 3)))),
      Reader, Reader] initial_world) =
     [PNone, PNone, PFloat (Finite 3), PBool True]"
  by (simp add: interleave_def target_reads_def fields_def target_location_clear target_location_set
      initial_target_def initial_world_def)

text \<open>
  C3, as the scripts have it. In every state reached from the initial binding by any
  sequence of \<^verbatim>\<open>set_target_location\<close> and \<^verbatim>\<open>clear_target_location\<close> calls,
  \<^verbatim>\<open>isSet = False\<close> implies that latitude and longitude are \<^verbatim>\<open>None\<close>; and a poll whose
  four target reads follow one another with no registry call between them, whatever the
  console does before and after, reads \<^verbatim>\<open>hasTarget = false\<close> exactly when it reads null
  for \<^verbatim>\<open>targetLatitude\<close> and \<^verbatim>\<open>targetLongitude\<close>. The packet that either script builds
  in one state is such a poll.
\<close>

theorem unset_means_absent:
  assumes "target_location w0 = initial_target"
  shows "(isSet (target_location (do_calls cs w0)) = PBool False \<longrightarrow>
           latitude (target_location (do_calls cs w0)) = PNone \<and>
           longitude (target_location (do_calls cs w0)) = PNone)
       \<and> (snd (interleave (map Console cs @ [Reader, Reader, Reader, Reader] @ later) w0) ! 3
             = PBool False \<longleftrightarrow>
           snd (interleave (map Console cs @ [Reader, Reader, Reader, Reader] @ later) w0) ! 0
             = PNone \<and>
           snd (interleave (map Console cs @ [Reader, Reader, Reader, Reader] @ later) w0) ! 1
             = PNone)
       \<and> (map_of (generate_random_gps (target_location (do_calls cs w0)) r1 r2 r3 t) ''hasTarget''
             = Some (PBool False) \<longleftrightarrow>
           map_of (generate_random_gps (target_location (do_calls cs w0)) r1 r2 r3 t) ''targetLatitude''
             = Some PNone \<and>
           map_of (generate_random_gps (target_location (do_calls cs w0)) r1 r2 r3 t) ''targetLongitude''
             = Some PNone)
       \<and> (map_of (fst (get_android_gps loads cmd t (do_calls cs w0))) ''hasTarget''
             = Some (PBool False) \<longleftrightarrow>
           map_of (fst (get_android_gps loads cmd t (do_calls cs w0))) ''targetLatitude''
             = Some PNone \<and>
           map_of (fst (get_android_gps loads cmd t (do_calls cs w0))) ''targetLongitude''
             = Some PNone)"
proof -
  let ?tg = "target_location (do_calls cs w0)"
  have shape: "?tg = initial_target \<or>
     (\<exists>lat lon alt. ?tg =
        \<lparr>latitude = PFloat lat, longitude = PFloat lon, altitude = alt, isSet = PBool True\<rparr>)"
    using assms by (intro do_calls_target) simp
  have a: "target_fields (fst (get_android_gps loads cmd t (do_calls cs w0))) =
     [Some (latitude ?tg), Some (longitude ?tg), Some (altitude ?tg), Some (isSet ?tg)]"
    by (rule target_fields_android)
  have r: "target_fields (generate_random_gps ?tg r1 r2 r3 t) =
     [Some (latitude ?tg), Some (longitude ?tg), Some (altitude ?tg), Some (isSet ?tg)]"
    by (rule target_fields_random)
  from shape show ?thesis
    using a r unfolding target_fields_def target_keys_def uninterrupted_reads fields_nth
    by (auto simp: initial_target_def)
qed

theorem unset_means_absent_witness:
  "target_location initial_world = initial_target
   \<and> isSet (target_location
        (do_calls [Set_target (Finite 1) (Finite 2) None, Clear_target] initial_world)) = PBool False
   \<and> latitude (target_location
        (do_calls [Set_target (Finite 1) (Finite 2) None, Clear_target] initial_world)) = PNone
   \<and> longitude (target_location
        (do_calls [Set_target (Finite 1) (Finite 2) None, Clear_target] initial_world)) = PNone
   \<and> snd (interleave
        (map Console [Set_target (Finite 1) (Finite 2) None, Clear_target] @
         [Reader, Reader, Reader, Reader] @ [Console (Set_target (Finite 5) (Finite 6) None)])
        initial_world) = [PNone, PNone, PInt 0, PBool False]
   \<and> snd (interleave
        (map Console [Set_target (Finite 1) (Finite 2) None] @
         [Reader, Reader, Reader, Reader] @ [Console Clear_target])
        initial_world) = [PFloat (Finite 1), PFloat (Finite 2), PInt 0, PBool True]"
  using unset_means_absent [of initial_world
      "[Set_target (Finite 1) (Finite 2) None, Clear_target]"
      "[Console (Set_target (Finite 5) (Finite 6) None)]"]
  by (simp add: interleave_def target_reads_def fields_def target_location_clear target_location_set
      initial_target_def initial_world_def)

lemma do_call_target:
  "target_location (do_call c w) = initial_target \<or>
     (\<exists>lat lon alt. target_location (do_call c w) =
        \<lparr>latitude = PFloat lat, longitude = PFloat lon, altitude = alt, isSet = PBool True\<rparr>)"
  by (cases c) (simp_all add: target_location_set target_location_clear)

lemma written_target:
  assumes "target_location w = initial_target \<or>
     (\<exists>lat lon alt. target_location w =
        \<lparr>latitude = PFloat lat, longitude = PFloat lon, altitude = alt, isSet = PBool True\<rparr>)"
      and "tg \<in> set (written w sched)"
  shows "tg = initial_target \<or>
     (\<exists>lat lon alt. tg =
        \<lparr>latitude = PFloat lat, longitude = PFloat lon, altitude = alt, isSet = PBool True\<rparr>)"
  using assms
proof (induction w sched rule: written.induct)
  case (1 w)
  then show ?case by simp
next
  case (2 w c sched)
  from "2.prems"(2) consider "tg = target_location w" | "tg \<in> set (written (do_call c w) sched)"
    by auto
  then show ?case
  proof cases
    case 1
    with "2.prems"(1) show ?thesis by simp
  next
    case 2
    from "2.IH" [OF do_call_target this] show ?thesis .
  qed
next
  case (3 w sched)
  then show ?case by simp
qed

lemma do_calls_target_finite:
  "target_location w = initial_target \<or>
     (\<exists>x y alt. target_location w =
        \<lparr>latitude = PFloat (Finite x), longitude = PFloat (Finite y), altitude = alt,
         isSet = PBool True\<rparr>) \<Longrightarrow>
   list_all finite_coordinates cs \<Longrightarrow>
   target_location (do_calls cs w) = initial_target \<or>
     (\<exists>x y alt. target_location (do_calls cs w) =
        \<lparr>latitude = PFloat (Finite x), longitude = PFloat (Finite y), altitude = alt,
         isSet = PBool True\<rparr>)"
proof (induction cs arbitrary: w)
  case Nil
  then show ?case by simp
next
  case (Cons c cs)
  from Cons.prems(2) have c: "finite_coordinates c" and cs: "list_all finite_coordinates cs"
    by simp_all
  have "target_location (do_call c w) = initial_target \<or>
     (\<exists>x y alt. target_location (do_call c w) =
        \<lparr>latitude = PFloat (Finite x), longitude = PFloat (Finite y), altitude = alt,
         isSet = PBool True\<rparr>)"
    using c by (cases c rule: finite_coordinates.cases)
      (simp_all add: target_location_set target_location_clear)
  from Cons.IH [OF this cs] show ?case by simp
qed

lemma reads_types:
  assumes "target_location w = initial_target"
      and "i < length (snd (interleave sched w))"
  shows "(i < 2 \<longrightarrow> snd (interleave sched w) ! i = PNone \<or>
                    (\<exists>x. snd (interleave sched w) ! i = PFloat x))
       \<and> (i = 3 \<longrightarrow> (\<exists>b. snd (interleave sched w) ! i = PBool b))"
proof -
  have "\<forall>i<length (snd (foldl step (w, []) sched)).
      \<exists>tg\<in>set (written w sched). snd (foldl step (w, []) sched) ! i = fields tg ! i"
    by (rule reads_from_written) simp_all
  with assms(2) obtain tg where tg: "tg \<in> set (written w sched)"
    and r: "snd (interleave sched w) ! i = fields tg ! i"
    unfolding interleave_def by blast
  have "tg = initial_target \<or>
     (\<exists>lat lon alt. tg =
        \<lparr>latitude = PFloat lat, longitude = PFloat lon, altitude = alt, isSet = PBool True\<rparr>)"
    using assms(1) tg by (intro written_target [of w tg sched]) simp_all
  then show ?thesis
    unfolding r by (auto simp: fields_nth initial_target_def less_2_cases_iff)
qed

text \<open>
  C9 as the specification words it fails: \<^verbatim>\<open>float\<close> accepts the words \<^verbatim>\<open>nan\<close> and
  \<^verbatim>\<open>inf\<close> at the console, and the packets then carry a NaN and an infinity as target
  coordinates, which are neither numbers nor null.
\<close>

theorem nan_target_in_packet:
  "float_of_word ''nan'' = Some NaN
   \<and> float_of_word ''inf'' = Some PosInf
   \<and> target_location (handle_user_input float_of_word initial_world [Inr ''y'', Inr ''nan inf'']) =
       \<lparr>latitude = PFloat NaN, longitude = PFloat PosInf, altitude = PInt 0, isSet = PBool True\<rparr>
   \<and> map_of (generate_random_gps
        (target_location (handle_user_input float_of_word initial_world [Inr ''y'', Inr ''nan inf'']))
        0 0 0 (3 / 2)) ''targetLatitude'' = Some (PFloat NaN)
   \<and> map_of (generate_random_gps
        (target_location (handle_user_input float_of_word initial_world [Inr ''y'', Inr ''nan inf'']))
        0 0 0 (3 / 2)) ''targetLongitude'' = Some (PFloat PosInf)
   \<and> map_of (fst (get_android_gps (\<lambda>s. Inr (PDict [])) (Inr ''{}'') (3 / 2)
        (handle_user_input float_of_word initial_world [Inr ''y'', Inr ''nan inf''])))
        ''targetLatitude'' = Some (PFloat NaN)"
proof -
  have sp: "split ''nan inf'' = [''nan'', ''inf'']"
    by (simp add: split_def isspace_def)
  have fw: "float_of_word ''nan'' = Some NaN" "float_of_word ''inf'' = Some PosInf"
    by (simp_all add: float_of_word_def)
  have tg: "target_location (handle_user_input float_of_word initial_world [Inr ''y'', Inr ''nan inf'']) =
       \<lparr>latitude = PFloat NaN, longitude = PFloat PosInf, altitude = PInt 0, isSet = PBool True\<rparr>"
    by (simp add: lower_examples coordinates_entry_two [OF sp fw] target_location_set)
  show ?thesis
    using target_fields_nth [OF target_fields_android, of "\<lambda>s. Inr (PDict [])" "Inr ''{}''" "3 / 2"
        "handle_user_input float_of_word initial_world [Inr ''y'', Inr ''nan inf'']"]
      target_fields_nth [OF target_fields_random, of
        "target_location (handle_user_input float_of_word initial_world [Inr ''y'', Inr ''nan inf''])"
        0 0 0 "3 / 2"]
    unfolding tg by (simp add: fw)
qed

text \<open>
  C9, as the scripts have it. In every state reached from the initial binding by registry
  calls, the dictionary that either script hands to \<^verbatim>\<open>json.dumps\<close> has exactly the nine
  keys \<^verbatim>\<open>latitude\<close>, \<^verbatim>\<open>longitude\<close>, \<^verbatim>\<open>altitude\<close>, \<^verbatim>\<open>timestamp\<close>, \<^verbatim>\<open>valid\<close>,
  \<^verbatim>\<open>targetLatitude\<close>, \<^verbatim>\<open>targetLongitude\<close>, \<^verbatim>\<open>targetAltitude\<close>, \<^verbatim>\<open>hasTarget\<close>, each
  once; the timestamp is the integer of the clock reading in milliseconds, within one
  millisecond and one rounding error of \<open>1000 t\<close>; \<^verbatim>\<open>valid\<close> and \<^verbatim>\<open>hasTarget\<close> are
  booleans; the target latitude and longitude are floats or \<^verbatim>\<open>None\<close>, and finite floats
  or \<^verbatim>\<open>None\<close> when every call so far had finite coordinates. The types of the target
  entries are the same under every interleaving of the four reads with the console.
\<close>

theorem packet_shape:
  assumes "target_location w0 = initial_target"
  shows "(\<forall>p \<in> {generate_random_gps (target_location (do_calls cs w0)) r1 r2 r3 t,
                 fst (get_android_gps loads cmd t (do_calls cs w0))}.
            map fst p = [''latitude'', ''longitude'', ''altitude'', ''timestamp'', ''valid'',
                         ''targetLatitude'', ''targetLongitude'', ''targetAltitude'', ''hasTarget'']
          \<and> map_of p ''timestamp'' = Some (PInt (timestamp_ms t))
          \<and> (\<exists>b. map_of p ''valid'' = Some (PBool b))
          \<and> (\<exists>b. map_of p ''hasTarget'' = Some (PBool b))
          \<and> (map_of p ''targetLatitude'' = Some PNone \<or>
               (\<exists>x. map_of p ''targetLatitude'' = Some (PFloat x)))
          \<and> (map_of p ''targetLongitude'' = Some PNone \<or>
               (\<exists>x. map_of p ''targetLongitude'' = Some (PFloat x)))
          \<and> (list_all finite_coordinates cs \<longrightarrow>
               (map_of p ''targetLatitude'' = Some PNone \<or>
                 (\<exists>x. map_of p ''targetLatitude'' = Some (PFloat (Finite x)))) \<and>
               (map_of p ''targetLongitude'' = Some PNone \<or>
                 (\<exists>x. map_of p ''targetLongitude'' = Some (PFloat (Finite x))))))
       \<and> (0 \<le> t \<longrightarrow>
            t * 1000 * (1 - 1 / 2 ^ 53) - 1 < of_int (timestamp_ms t) \<and>
            of_int (timestamp_ms t) \<le> t * 1000 * (1 + 1 / 2 ^ 53))
       \<and> (\<forall>i<length (snd (interleave sched w0)).
            (i < 2 \<longrightarrow> snd (interleave sched w0) ! i = PNone \<or>
                         (\<exists>x. snd (interleave sched w0) ! i = PFloat x))
          \<and> (i = 3 \<longrightarrow> (\<exists>b. snd (interleave sched w0) ! i = PBool b)))"
proof -
  let ?tg = "target_location (do_calls cs w0)"
  have shape: "?tg = initial_target \<or>
     (\<exists>lat lon alt. ?tg =
        \<lparr>latitude = PFloat lat, longitude = PFloat lon, altitude = alt, isSet = PBool True\<rparr>)"
    using assms by (intro do_calls_target) simp
  have fin: "?tg = initial_target \<or>
     (\<exists>x y alt. ?tg =
        \<lparr>latitude = PFloat (Finite x), longitude = PFloat (Finite y), altitude = alt,
         isSet = PBool True\<rparr>)" if "list_all finite_coordinates cs"
    using assms that by (intro do_calls_target_finite) simp_all
  note a = target_fields_nth [OF target_fields_android [of loads cmd t "do_calls cs w0"]]
  note r = target_fields_nth [OF target_fields_random [of ?tg r1 r2 r3 t]]
  have fr: "list_all finite_coordinates cs \<longrightarrow>
      (map_of (generate_random_gps ?tg r1 r2 r3 t) ''targetLatitude'' = Some PNone \<or>
        (\<exists>x. map_of (generate_random_gps ?tg r1 r2 r3 t) ''targetLatitude'' = Some (PFloat (Finite x)))) \<and>
      (map_of (generate_random_gps ?tg r1 r2 r3 t) ''targetLongitude'' = Some PNone \<or>
        (\<exists>x. map_of (generate_random_gps ?tg r1 r2 r3 t) ''targetLongitude'' = Some (PFloat (Finite x))))"
    using fin r by (auto simp: initial_target_def)
  have fa: "list_all finite_coordinates cs \<longrightarrow>
      (map_of (fst (get_android_gps loads cmd t (do_calls cs w0))) ''targetLatitude'' = Some PNone \<or>
        (\<exists>x. map_of (fst (get_android_gps loads cmd t (do_calls cs w0))) ''targetLatitude'' =
           Some (PFloat (Finite x)))) \<and>
      (map_of (fst (get_android_gps loads cmd t (do_calls cs w0))) ''targetLongitude'' = Some PNone \<or>
        (\<exists>x. map_of (fst (get_android_gps loads cmd t (do_calls cs w0))) ''targetLongitude'' =
           Some (PFloat (Finite x))))"
    using fin a by (auto simp: initial_target_def)
  have ts: "0 \<le> t \<longrightarrow>
            t * 1000 * (1 - 1 / 2 ^ 53) - 1 < of_int (timestamp_ms t) \<and>
            of_int (timestamp_ms t) \<le> t * 1000 * (1 + 1 / 2 ^ 53)"
    using timestamp_ms_bounds [of t] by simp
  have il: "\<forall>i<length (snd (interleave sched w0)).
            (i < 2 \<longrightarrow> snd (interleave sched w0) ! i = PNone \<or>
                         (\<exists>x. snd (interleave sched w0) ! i = PFloat x))
          \<and> (i = 3 \<longrightarrow> (\<exists>b. snd (interleave sched w0) ! i = PBool b))"
    using reads_types [OF assms] by blast
  show ?thesis
    using random_packet_shape [OF shape, of r1 r2 r3 t]
      android_packet_shape [OF shape, of loads cmd t] fr fa ts il
    by (simp only: ball_simps insert_iff empty_iff bex_simps simp_thms)
qed

theorem packet_shape_witness:
  "target_location initial_world = initial_target
   \<and> generate_random_gps
        (target_location (do_calls [Set_target (Finite 1) (Finite 2) None] initial_world))
        0 0 0 (3 / 2) =
       [(''latitude'', PFloat (Finite (4454341506446131 / 70368744177664))),
        (''longitude'', PFloat (Finite (2899192260119757 / 281474976710656))),
        (''altitude'', PFloat (Finite 0)),
        (''timestamp'', PInt 1500),
        (''valid'', PBool True),
        (''targetLatitude'', PFloat (Finite 1)),
        (''targetLongitude'', PFloat (Finite 2)),
        (''targetAltitude'', PInt 0),
        (''hasTarget'', PBool True)]
   \<and> fst (get_android_gps (\<lambda>s. Inr (PDict [])) (Inr ''{}'') (3 / 2)
        (do_calls [Set_target (Finite 1) (Finite 2) None] initial_world)) =
       [(''latitude'', PFloat (Finite 0)),
        (''longitude'', PFloat (Finite 0)),
        (''altitude'', PFloat (Finite 0)),
        (''timestamp'', PInt 1500),
        (''valid'', PBool False),
        (''targetLatitude'', PFloat (Finite 1)),
        (''targetLongitude'', PFloat (Finite 2)),
        (''targetAltitude'', PInt 0),
        (''hasTarget'', PBool True)]
   \<and> list_all finite_coordinates [Set_target (Finite 1) (Finite 2) None]
   \<and> (0::real) \<le> 3 / 2
   \<and> (3 / 2 :: real) * 1000 * (1 - 1 / 2 ^ 53) - 1 < 1500
   \<and> (1500 :: real) \<le> 3 / 2 * 1000 * (1 + 1 / 2 ^ 53)
   \<and> snd (interleave
        [Reader, Console (Set_target (Finite 1) (Finite 2) None), Reader, Reader, Reader]
        initial_world) = [PNone, PFloat (Finite 2), PInt 0, PBool True]"
  using packet_shape [where ?w0.0 = initial_world and cs = "[Set_target (Finite 1) (Finite 2) None]"
      and ?r1.0 = 0 and ?r2.0 = 0 and ?r3.0 = 0 and t = "3 / 2" and loads = "\<lambda>s. Inr (PDict [])"
      and cmd = "Inr ''{}''"
      and sched = "[Reader, Console (Set_target (Finite 1) (Finite 2) None), Reader, Reader, Reader]"]
  by (simp add: lowest_reading timestamp_ms_example target_location_set get_android_gps_def
      android_reading_def fallback_reading_def Let_def interleave_def target_reads_def
      initial_world_def initial_target_def)

end
